theory Spec2Isabelle
  imports Main "HOL-Library.Word" "HOL-Library.Char_ord"
begin

section \<open>The environment of the service\<close>

text \<open>
  The program is one Go file in three versions: \<^verbatim>\<open>unnamed/part_000\<close> and the
  two files concatenated in \<^verbatim>\<open>main.go\<close> (lines 1-178 and lines 179-347). Everything
  the handlers touch outside their own code is gathered in one record that is passed
  along explicitly: the MongoDB collection, the cryptographic random source, the outcome
  of HTTP probes and the clock.
\<close>

text \<open>\<^verbatim>\<open>type SlugURLPair struct { Slug, Url string; ExpireAt time.Time }\<close>;
  the time is a count of nanoseconds.\<close>

record SlugURLPair =
  Slug :: string
  Url :: string
  ExpireAt :: int

text \<open>The ways a request can take the process down: a Go run-time panic, \<^verbatim>\<open>log.Fatal\<close>
  and \<^verbatim>\<open>log.Panic\<close>.\<close>

datatype crash = NilPointerDereference | IndexOutOfRange | LogFatal | LogPanic

text \<open>The non-nil errors of \<^verbatim>\<open>FindOne(...).Decode(...)\<close>: \<^verbatim>\<open>mongo.ErrNoDocuments\<close>,
  or any other failure (transport, decoding).\<close>

datatype find_error = ErrNoDocuments | ErrStore

text \<open>
  \<^item> \<open>docs\<close>: the collection \<^verbatim>\<open>slug-url-pairs\<close> in natural order;
  \<^item> \<open>rand_reader\<close>, \<open>rand_calls\<close>: what the \<open>k\<close>-th call of \<^verbatim>\<open>rand.Int\<close> returns, as the
    pair (\<^verbatim>\<open>*big.Int\<close> or nil, whether \<^verbatim>\<open>err\<close> is non-nil), and how many calls were made;
  \<^item> \<open>store_down\<close>, \<open>store_calls\<close>: whether the \<open>k\<close>-th round trip to the database
    fails, and how many round trips were made;
  \<^item> \<open>ttl_index\<close>: whether the collection has the expiry index on \<^verbatim>\<open>expireAt\<close>;
  \<^item> \<open>network\<close>: the status code of the response that the HTTP transport obtains
    for a GET of a URL string, or \<open>None\<close> when the round trip fails;
  \<^item> \<open>clock\<close>: \<^verbatim>\<open>time.Now()\<close>.
\<close>

record world =
  docs :: "SlugURLPair list"
  rand_reader :: "nat \<Rightarrow> int option \<times> bool"
  rand_calls :: nat
  store_down :: "nat \<Rightarrow> bool"
  store_calls :: nat
  ttl_index :: bool
  network :: "string \<Rightarrow> nat option"
  clock :: int

section \<open>Slug generation\<close>

definition SLUG_ALPHABET :: string where
  "SLUG_ALPHABET = ''abcdefghijklmnopqrstuvwxyzABCDEFGHIJKLMNOPQRSTUVWXYZ1234567890_-''"

text \<open>\<^verbatim>\<open>rand.Int(rand.Reader, max)\<close>: the next outcome of the random source.\<close>

definition rand_Int :: "world \<Rightarrow> (int option \<times> bool) \<times> world" where
  "rand_Int w = (rand_reader w (rand_calls w), w\<lparr>rand_calls := Suc (rand_calls w)\<rparr>)"

text \<open>\<^verbatim>\<open>(*big.Int).Int64()\<close>: the method reads the fields of its receiver, so a nil
  receiver is a nil-pointer dereference; otherwise the low 64 bits of the value.\<close>

fun Int64 :: "int option \<Rightarrow> crash + 64 word" where
  "Int64 None = Inl NilPointerDereference"
| "Int64 (Some v) = Inr (word_of_int v)"

text \<open>Indexing a slice with an \<^verbatim>\<open>int64\<close>: a run-time panic out of range.\<close>

definition rune_at :: "string \<Rightarrow> 64 word \<Rightarrow> crash + char" where
  "rune_at xs i =
     (if 0 \<le> sint i \<and> sint i < int (length xs) then Inr (xs ! nat (sint i))
      else Inl IndexOutOfRange)"

text \<open>
  \<^verbatim>\<open>
  func generateRandomString(length int) string {
      s := make([]rune, length)
      for i := range s {
          randomIndex, _ := rand.Int(rand.Reader, big.NewInt(int64(len(SLUG_ALPHABET))))
          s[i] = SLUG_ALPHABET[randomIndex.Int64()]
      }
      return string(s)
  }\<close>
  The loop fills the positions from left to right, one call of \<^verbatim>\<open>rand.Int\<close> each; the
  error is discarded and the pointer is used as it is.
\<close>

fun generateRandomString :: "nat \<Rightarrow> world \<Rightarrow> (crash + string) \<times> world" where
  "generateRandomString 0 w = (Inr [], w)"
| "generateRandomString (Suc n) w =
     (case rand_Int w of ((randomIndex, _), w1) \<Rightarrow>
        (case Int64 randomIndex of
           Inl p \<Rightarrow> (Inl p, w1)
         | Inr i \<Rightarrow>
             (case rune_at SLUG_ALPHABET i of
                Inl p \<Rightarrow> (Inl p, w1)
              | Inr c \<Rightarrow>
                  (case generateRandomString n w1 of
                     (Inl p, w2) \<Rightarrow> (Inl p, w2)
                   | (Inr cs, w2) \<Rightarrow> (Inr (c # cs), w2)))))"

text \<open>\<^verbatim>\<open>collection.FindOne(ctx, bson.D{{"slug", slug}}).Decode(&result)\<close>: one round
  trip; the first document with that slug, \<^verbatim>\<open>ErrNoDocuments\<close> when there is none.\<close>

definition FindOne :: "string \<Rightarrow> world \<Rightarrow> (find_error + SlugURLPair) \<times> world" where
  "FindOne slug w =
     (let w' = w\<lparr>store_calls := Suc (store_calls w)\<rparr> in
      if store_down w (store_calls w) then (Inl ErrStore, w')
      else (case find (\<lambda>d. Slug d = slug) (docs w) of
              None \<Rightarrow> (Inl ErrNoDocuments, w')
            | Some d \<Rightarrow> (Inr d, w')))"

fun err_of :: "'e + 'a \<Rightarrow> 'e option" where
  "err_of (Inl e) = Some e"
| "err_of (Inr _) = None"

text \<open>
  \<^verbatim>\<open>
  func generateUniqueSlug(slugURLPairCollection *mongo.Collection) string {
      s := generateRandomString(5)
      var result bson.M
      err := slugURLPairCollection.FindOne(..., bson.D{{Key: "slug", Value: s}}).Decode(&result)
      for err == nil {
          err = slugURLPairCollection.FindOne(..., bson.D{{Key: "slug", Value: s}}).Decode(&result)
      }
      return s
  }\<close>
  The loop has no bound, so it is a partial function: \<open>None\<close> is "never returns".
\<close>

partial_function (option) retryLoop :: "find_error option \<Rightarrow> string \<Rightarrow> world \<Rightarrow> world option" where
  "retryLoop err s w =
     (if err = None then (case FindOne s w of (r, w') \<Rightarrow> retryLoop (err_of r) s w')
      else Some w)"

declare retryLoop.simps [code]

definition generateUniqueSlug :: "world \<Rightarrow> ((crash + string) \<times> world) option" where
  "generateUniqueSlug w =
     (case generateRandomString 5 w of
        (Inl p, w1) \<Rightarrow> Some (Inl p, w1)
      | (Inr s, w1) \<Rightarrow>
          (case FindOne s w1 of (r, w2) \<Rightarrow>
             (case retryLoop (err_of r) s w2 of
                None \<Rightarrow> None
              | Some w3 \<Rightarrow> Some (Inr s, w3))))"

section \<open>Package strings\<close>

text \<open>The functions of Go's standard library that the program and \<^verbatim>\<open>net/url\<close> call,
  after their documentation; strings are sequences of bytes.\<close>

definition HasPrefix :: "string \<Rightarrow> string \<Rightarrow> bool" where
  "HasPrefix s p = (take (length p) s = p)"

definition HasSuffix :: "string \<Rightarrow> string \<Rightarrow> bool" where
  "HasSuffix s p = (length p \<le> length s \<and> drop (length s - length p) s = p)"

text \<open>\<^verbatim>\<open>strings.Cut(s, sep)\<close> for a one-byte separator: the text before and after its first
  occurrence; all of \<open>s\<close> and the empty string when there is none.\<close>

fun Cut :: "string \<Rightarrow> char \<Rightarrow> string \<times> string \<times> bool" where
  "Cut [] sep = ([], [], False)"
| "Cut (c # cs) sep =
     (if c = sep then ([], cs, True)
      else (case Cut cs sep of (before, after, found) \<Rightarrow> (c # before, after, found)))"

text \<open>\<^verbatim>\<open>strings.Index\<close> and \<^verbatim>\<open>strings.LastIndex\<close>: \<open>None\<close> stands for \<open>-1\<close>.\<close>

fun Index :: "string \<Rightarrow> string \<Rightarrow> nat option" where
  "Index [] sub = (if sub = [] then Some 0 else None)"
| "Index (c # cs) sub =
     (if HasPrefix (c # cs) sub then Some 0 else map_option Suc (Index cs sub))"

definition LastIndex :: "string \<Rightarrow> string \<Rightarrow> nat option" where
  "LastIndex s sub =
     (case Index (rev s) (rev sub) of
        None \<Rightarrow> None
      | Some i \<Rightarrow> Some (length s - i - length sub))"

text \<open>\<^verbatim>\<open>strings.ToLower\<close> on the ASCII letters (a scheme holds ASCII only).\<close>

definition ToLower :: "string \<Rightarrow> string" where
  "ToLower s = map (\<lambda>c. if CHR ''A'' \<le> c \<and> c \<le> CHR ''Z'' then char_of (of_char c + (32::nat)) else c) s"

section \<open>Package net/url\<close>

text \<open>\<^verbatim>\<open>url.Parse\<close> and \<^verbatim>\<open>(*URL).String\<close> with the functions they call, after the
  source of the package (\<^verbatim>\<open>net/url/url.go\<close>, Go 1.20).\<close>

datatype encoding = encodePath | encodePathSegment | encodeHost | encodeZone
  | encodeUserPassword | encodeQueryComponent | encodeFragment

datatype url_err = ErrorString string | EscapeError string | InvalidHostError string
  | InvalidPort string

text \<open>\<^verbatim>\<open>&url.Error{Op, URL, Err}\<close>\<close>

datatype url_Error = url_Error string string url_err

record Userinfo =
  username :: string
  password :: string
  passwordSet :: bool

record url_URL =
  Scheme :: string
  Opaque :: string
  User :: "Userinfo option"
  Host :: string
  Path :: string
  RawPath :: string
  OmitHost :: bool
  ForceQuery :: bool
  RawQuery :: string
  Fragment :: string
  RawFragment :: string

definition new_URL :: url_URL where
  "new_URL = \<lparr>Scheme = [], Opaque = [], User = None, Host = [], Path = [], RawPath = [],
     OmitHost = False, ForceQuery = False, RawQuery = [], Fragment = [], RawFragment = []\<rparr>"

definition ishex :: "char \<Rightarrow> bool" where
  "ishex c = ((CHR ''0'' \<le> c \<and> c \<le> CHR ''9'') \<or> (CHR ''a'' \<le> c \<and> c \<le> CHR ''f'')
     \<or> (CHR ''A'' \<le> c \<and> c \<le> CHR ''F''))"

definition unhex :: "char \<Rightarrow> nat" where
  "unhex c =
     (if CHR ''0'' \<le> c \<and> c \<le> CHR ''9'' then of_char c - of_char CHR ''0''
      else if CHR ''a'' \<le> c \<and> c \<le> CHR ''f'' then of_char c - of_char CHR ''a'' + 10
      else if CHR ''A'' \<le> c \<and> c \<le> CHR ''F'' then of_char c - of_char CHR ''A'' + 10
      else 0)"

definition shouldEscape :: "char \<Rightarrow> encoding \<Rightarrow> bool" where
  "shouldEscape c mode =
     (if (CHR ''a'' \<le> c \<and> c \<le> CHR ''z'') \<or> (CHR ''A'' \<le> c \<and> c \<le> CHR ''Z'')
         \<or> (CHR ''0'' \<le> c \<and> c \<le> CHR ''9'') then False
      else if (mode = encodeHost \<or> mode = encodeZone) \<and> c \<in> set (''!$&'' @ [CHR 0x27] @ ''()*+,;=:[]<>'' @ [CHR 0x22]) then False
      else if c \<in> set ''-_.~'' then False
      else if c \<in> set ''$&+,/:;=?@'' \<and> mode = encodePath then c = CHR ''?''
      else if c \<in> set ''$&+,/:;=?@'' \<and> mode = encodePathSegment then
        c = CHR ''/'' \<or> c = CHR '';'' \<or> c = CHR '','' \<or> c = CHR ''?''
      else if c \<in> set ''$&+,/:;=?@'' \<and> mode = encodeUserPassword then
        c = CHR ''@'' \<or> c = CHR ''/'' \<or> c = CHR ''?'' \<or> c = CHR '':''
      else if c \<in> set ''$&+,/:;=?@'' \<and> mode = encodeQueryComponent then True
      else if c \<in> set ''$&+,/:;=?@'' \<and> mode = encodeFragment then False
      else if mode = encodeFragment \<and> c \<in> set ''!()*'' then False
      else True)"

text \<open>\<^verbatim>\<open>unescape\<close>, first loop: count the \<open>%\<close> and check that they are well-formed.\<close>

fun unescape_scan :: "encoding \<Rightarrow> string \<Rightarrow> nat \<Rightarrow> bool \<Rightarrow> url_err + nat \<times> bool" where
  "unescape_scan mode [] n hasPlus = Inr (n, hasPlus)"
| "unescape_scan mode (c # cs) n hasPlus =
     (if c = CHR ''%'' then
        (case cs of
           a # b # rest \<Rightarrow>
             (if \<not> ishex a \<or> \<not> ishex b then Inl (EscapeError (take 3 (c # cs)))
              else if mode = encodeHost \<and> unhex a < 8 \<and> [c, a, b] \<noteq> ''%25'' then
                Inl (EscapeError [c, a, b])
              else if mode = encodeZone \<and> [c, a, b] \<noteq> ''%25''
                  \<and> char_of (unhex a * 16 + unhex b) \<noteq> CHR '' ''
                  \<and> shouldEscape (char_of (unhex a * 16 + unhex b)) encodeHost then
                Inl (EscapeError [c, a, b])
              else unescape_scan mode rest (Suc n) hasPlus)
         | _ \<Rightarrow> Inl (EscapeError (take 3 (c # cs))))
      else if c = CHR ''+'' then unescape_scan mode cs n (mode = encodeQueryComponent)
      else if (mode = encodeHost \<or> mode = encodeZone) \<and> (of_char c :: nat) < 0x80
          \<and> shouldEscape c encodeHost then
        Inl (InvalidHostError [c])
      else unescape_scan mode cs n hasPlus)"

text \<open>\<^verbatim>\<open>unescape\<close>, second loop: decode. The scan has checked that two hex digits
  follow every \<open>%\<close>.\<close>

fun unescape_decode :: "encoding \<Rightarrow> string \<Rightarrow> string" where
  "unescape_decode mode [] = []"
| "unescape_decode mode (c # cs) =
     (if c = CHR ''%'' then
        (case cs of
           a # b # rest \<Rightarrow> char_of (unhex a * 16 + unhex b) # unescape_decode mode rest
         | _ \<Rightarrow> [])
      else if c = CHR ''+'' then
        (if mode = encodeQueryComponent then CHR '' '' else CHR ''+'') # unescape_decode mode cs
      else c # unescape_decode mode cs)"

definition unescape :: "string \<Rightarrow> encoding \<Rightarrow> url_err + string" where
  "unescape s mode =
     (case unescape_scan mode s 0 False of
        Inl e \<Rightarrow> Inl e
      | Inr (n, hasPlus) \<Rightarrow>
          if n = 0 \<and> \<not> hasPlus then Inr s else Inr (unescape_decode mode s))"

definition upperhex :: string where
  "upperhex = ''0123456789ABCDEF''"

definition escape_byte :: "char \<Rightarrow> encoding \<Rightarrow> string" where
  "escape_byte c mode =
     (if shouldEscape c mode then
        (if c = CHR '' '' \<and> mode = encodeQueryComponent then ''+''
         else [CHR ''%'', upperhex ! ((of_char c :: nat) div 16), upperhex ! ((of_char c :: nat) mod 16)])
      else [c])"

definition escape :: "string \<Rightarrow> encoding \<Rightarrow> string" where
  "escape s mode =
     (let spaceCount = length (filter (\<lambda>c. shouldEscape c mode \<and> c = CHR '' '' \<and> mode = encodeQueryComponent) s);
          hexCount = length (filter (\<lambda>c. shouldEscape c mode \<and> \<not> (c = CHR '' '' \<and> mode = encodeQueryComponent)) s)
      in if spaceCount = 0 \<and> hexCount = 0 then s
         else concat (map (\<lambda>c. escape_byte c mode) s))"

definition validEncoded :: "string \<Rightarrow> encoding \<Rightarrow> bool" where
  "validEncoded s mode =
     list_all (\<lambda>c. c \<in> set (''!$&'' @ [CHR 0x27] @ ''()*+,;=:@[]%'') \<or> \<not> shouldEscape c mode) s"

definition setPath :: "url_URL \<Rightarrow> string \<Rightarrow> url_err + url_URL" where
  "setPath u p =
     (case unescape p encodePath of
        Inl e \<Rightarrow> Inl e
      | Inr path \<Rightarrow>
          Inr (u\<lparr>Path := path, RawPath := (if p = escape path encodePath then [] else p)\<rparr>))"

definition EscapedPath :: "url_URL \<Rightarrow> string" where
  "EscapedPath u =
     (if RawPath u \<noteq> [] \<and> validEncoded (RawPath u) encodePath
         \<and> unescape (RawPath u) encodePath = Inr (Path u) then RawPath u
      else if Path u = ''*'' then ''*''
      else escape (Path u) encodePath)"

definition setFragment :: "url_URL \<Rightarrow> string \<Rightarrow> url_err + url_URL" where
  "setFragment u f =
     (case unescape f encodeFragment of
        Inl e \<Rightarrow> Inl e
      | Inr frag \<Rightarrow>
          Inr (u\<lparr>Fragment := frag,
                 RawFragment := (if f = escape frag encodeFragment then [] else f)\<rparr>))"

definition EscapedFragment :: "url_URL \<Rightarrow> string" where
  "EscapedFragment u =
     (if RawFragment u \<noteq> [] \<and> validEncoded (RawFragment u) encodeFragment
         \<and> unescape (RawFragment u) encodeFragment = Inr (Fragment u) then RawFragment u
      else escape (Fragment u) encodeFragment)"

definition Userinfo_String :: "Userinfo \<Rightarrow> string" where
  "Userinfo_String u =
     escape (username u) encodeUserPassword
       @ (if passwordSet u then '':'' @ escape (password u) encodeUserPassword else [])"

definition validOptionalPort :: "string \<Rightarrow> bool" where
  "validOptionalPort port =
     (case port of
        [] \<Rightarrow> True
      | c # ds \<Rightarrow> c = CHR '':'' \<and> list_all (\<lambda>b. \<not> (b < CHR ''0'' \<or> b > CHR ''9'')) ds)"

definition validUserinfo :: "string \<Rightarrow> bool" where
  "validUserinfo s =
     list_all (\<lambda>r. (CHR ''A'' \<le> r \<and> r \<le> CHR ''Z'') \<or> (CHR ''a'' \<le> r \<and> r \<le> CHR ''z'')
        \<or> (CHR ''0'' \<le> r \<and> r \<le> CHR ''9'')
        \<or> r \<in> set (''-._:~!$&'' @ [CHR 0x27] @ ''()*+,;=%@'')) s"

definition stringContainsCTLByte :: "string \<Rightarrow> bool" where
  "stringContainsCTLByte s = list_ex (\<lambda>b. b < CHR '' '' \<or> b = CHR 0x7F) s"

text \<open>\<^verbatim>\<open>getScheme\<close>: the loop over the index \<open>i\<close>; the third argument is \<^verbatim>\<open>rawURL[i:]\<close>.\<close>

fun getScheme_from :: "nat \<Rightarrow> string \<Rightarrow> string \<Rightarrow> url_err + string \<times> string" where
  "getScheme_from i rawURL [] = Inr ([], rawURL)"
| "getScheme_from i rawURL (c # cs) =
     (if (CHR ''a'' \<le> c \<and> c \<le> CHR ''z'') \<or> (CHR ''A'' \<le> c \<and> c \<le> CHR ''Z'') then
        getScheme_from (Suc i) rawURL cs
      else if (CHR ''0'' \<le> c \<and> c \<le> CHR ''9'') \<or> c = CHR ''+'' \<or> c = CHR ''-'' \<or> c = CHR ''.'' then
        (if i = 0 then Inr ([], rawURL) else getScheme_from (Suc i) rawURL cs)
      else if c = CHR '':'' then
        (if i = 0 then Inl (ErrorString ''missing protocol scheme'')
         else Inr (take i rawURL, drop (Suc i) rawURL))
      else Inr ([], rawURL))"

definition getScheme :: "string \<Rightarrow> url_err + string \<times> string" where
  "getScheme rawURL = getScheme_from 0 rawURL rawURL"

definition parseHost :: "string \<Rightarrow> url_err + string" where
  "parseHost host =
     (if HasPrefix host ''['' then
        (case LastIndex host '']'' of
           None \<Rightarrow> Inl (ErrorString (''missing '' @ [CHR 0x27] @ '']'' @ [CHR 0x27] @ '' in host''))
         | Some i \<Rightarrow>
             (if \<not> validOptionalPort (drop (Suc i) host) then Inl (InvalidPort (drop (Suc i) host))
              else
                (case Index (take i host) ''%25'' of
                   Some zone \<Rightarrow>
                     (case unescape (take zone host) encodeHost of
                        Inl e \<Rightarrow> Inl e
                      | Inr host1 \<Rightarrow>
                          (case unescape (drop zone (take i host)) encodeZone of
                             Inl e \<Rightarrow> Inl e
                           | Inr host2 \<Rightarrow>
                               (case unescape (drop i host) encodeHost of
                                  Inl e \<Rightarrow> Inl e
                                | Inr host3 \<Rightarrow> Inr (host1 @ host2 @ host3))))
                 | None \<Rightarrow> unescape host encodeHost)))
      else
        (case LastIndex host '':'' of
           Some i \<Rightarrow>
             (if \<not> validOptionalPort (drop i host) then Inl (InvalidPort (drop i host))
              else unescape host encodeHost)
         | None \<Rightarrow> unescape host encodeHost))"

definition parseAuthority :: "string \<Rightarrow> url_err + Userinfo option \<times> string" where
  "parseAuthority authority =
     (case LastIndex authority ''@'' of
        None \<Rightarrow>
          (case parseHost authority of Inl e \<Rightarrow> Inl e | Inr host \<Rightarrow> Inr (None, host))
      | Some i \<Rightarrow>
          (case parseHost (drop (Suc i) authority) of
             Inl e \<Rightarrow> Inl e
           | Inr host \<Rightarrow>
               (let userinfo = take i authority in
                if \<not> validUserinfo userinfo then Inl (ErrorString ''net/url: invalid userinfo'')
                else if CHR '':'' \<notin> set userinfo then
                  (case unescape userinfo encodeUserPassword of
                     Inl e \<Rightarrow> Inl e
                   | Inr name \<Rightarrow>
                       Inr (Some \<lparr>username = name, password = [], passwordSet = False\<rparr>, host))
                else
                  (case Cut userinfo (CHR '':'') of (username0, password0, _) \<Rightarrow>
                     (case unescape username0 encodeUserPassword of
                        Inl e \<Rightarrow> Inl e
                      | Inr name \<Rightarrow>
                          (case unescape password0 encodeUserPassword of
                             Inl e \<Rightarrow> Inl e
                           | Inr pw \<Rightarrow>
                               Inr (Some \<lparr>username = name, password = pw, passwordSet = True\<rparr>,
                                    host)))))))"

text \<open>\<^verbatim>\<open>parse\<close> is modelled in four steps. The last one: the authority and the
  path, once \<^verbatim>\<open>//\<close> is dropped (\<^verbatim>\<open>authority, rest = rest[2:], ""\<close> and what
  follows).\<close>

definition parse_authority :: "url_URL \<Rightarrow> string \<Rightarrow> url_err + url_URL" where
  "parse_authority url authority0 =
     (let authority = (case Index authority0 ''/'' of None \<Rightarrow> authority0 | Some i \<Rightarrow> take i authority0);
          rest = (case Index authority0 ''/'' of None \<Rightarrow> [] | Some i \<Rightarrow> drop i authority0)
      in case parseAuthority authority of
           Inl e \<Rightarrow> Inl e
         | Inr (user, host) \<Rightarrow> setPath (url\<lparr>User := user, Host := host\<rparr>) rest)"

text \<open>The third: opaque part, authority or path, given the URL that holds the scheme
  and the query.\<close>

definition parse_hier :: "url_URL \<Rightarrow> string \<Rightarrow> bool \<Rightarrow> url_err + url_URL" where
  "parse_hier url rest viaRequest =
     (if \<not> HasPrefix rest ''/'' \<and> Scheme url \<noteq> [] then Inr (url\<lparr>Opaque := rest\<rparr>)
      else if \<not> HasPrefix rest ''/'' \<and> viaRequest then Inl (ErrorString ''invalid URI for request'')
      else if \<not> HasPrefix rest ''/'' \<and> CHR '':'' \<in> set (fst (Cut rest (CHR ''/''))) then
        Inl (ErrorString ''first path segment in URL cannot contain colon'')
      else if (Scheme url \<noteq> [] \<or> (\<not> viaRequest \<and> \<not> HasPrefix rest ''///''))
          \<and> HasPrefix rest ''//'' then
        parse_authority url (drop 2 rest)
      else if Scheme url \<noteq> [] \<and> HasPrefix rest ''/'' then setPath (url\<lparr>OmitHost := True\<rparr>) rest
      else setPath url rest)"

text \<open>The second: the query is split off what follows the scheme.\<close>

definition parse_rest :: "string \<Rightarrow> string \<Rightarrow> bool \<Rightarrow> url_err + url_URL" where
  "parse_rest scheme rest viaRequest =
     (if HasSuffix rest ''?'' \<and> count_list rest (CHR ''?'') = 1 then
        parse_hier (new_URL\<lparr>Scheme := scheme, ForceQuery := True\<rparr>)
          (take (length rest - 1) rest) viaRequest
      else
        (case Cut rest (CHR ''?'') of (rest', rawQuery, _) \<Rightarrow>
           parse_hier (new_URL\<lparr>Scheme := scheme, RawQuery := rawQuery\<rparr>) rest' viaRequest))"

text \<open>The first: control bytes, \<^verbatim>\<open>*\<close>, and the scheme, which is lower-cased.\<close>

definition parse :: "string \<Rightarrow> bool \<Rightarrow> url_err + url_URL" where
  "parse rawURL viaRequest =
     (if stringContainsCTLByte rawURL then
        Inl (ErrorString ''net/url: invalid control character in URL'')
      else if rawURL = [] \<and> viaRequest then Inl (ErrorString ''empty url'')
      else if rawURL = ''*'' then Inr (new_URL\<lparr>Path := ''*''\<rparr>)
      else
        (case getScheme rawURL of
           Inl e \<Rightarrow> Inl e
         | Inr (scheme, rest) \<Rightarrow> parse_rest (ToLower scheme) rest viaRequest))"

definition Parse :: "string \<Rightarrow> url_Error + url_URL" where
  "Parse rawURL =
     (case Cut rawURL (CHR ''#'') of (u, frag, _) \<Rightarrow>
        (case parse u False of
           Inl err \<Rightarrow> Inl (url_Error ''parse'' u err)
         | Inr url \<Rightarrow>
             if frag = [] then Inr url
             else (case setFragment url frag of
                     Inl err \<Rightarrow> Inl (url_Error ''parse'' rawURL err)
                   | Inr url' \<Rightarrow> Inr url')))"

text \<open>\<^verbatim>\<open>(*URL).String()\<close> writes to a \<^verbatim>\<open>strings.Builder\<close>; each step below takes the
  buffer written so far and returns it extended: the authority (\<^verbatim>\<open>//\<close>, user and
  host), the path, the query, the fragment.\<close>

definition write_authority :: "url_URL \<Rightarrow> string \<Rightarrow> string" where
  "write_authority u buf =
     (if Scheme u \<noteq> [] \<or> Host u \<noteq> [] \<or> User u \<noteq> None then
        (if OmitHost u \<and> Host u = [] \<and> User u = None then buf
         else buf
           @ (if Host u \<noteq> [] \<or> Path u \<noteq> [] \<or> User u \<noteq> None then ''//'' else [])
           @ (case User u of None \<Rightarrow> [] | Some ui \<Rightarrow> Userinfo_String ui @ ''@'')
           @ (if Host u \<noteq> [] then escape (Host u) encodeHost else []))
      else buf)"

definition write_path :: "url_URL \<Rightarrow> string \<Rightarrow> string" where
  "write_path u buf =
     (let path = EscapedPath u;
          buf1 = (if path \<noteq> [] \<and> hd path \<noteq> CHR ''/'' \<and> Host u \<noteq> [] then buf @ ''/'' else buf);
          buf2 = (if buf1 = [] \<and> CHR '':'' \<in> set (fst (Cut path (CHR ''/''))) then buf1 @ ''./''
                  else buf1)
      in buf2 @ path)"

definition write_query :: "url_URL \<Rightarrow> string \<Rightarrow> string" where
  "write_query u buf =
     (if ForceQuery u \<or> RawQuery u \<noteq> [] then buf @ ''?'' @ RawQuery u else buf)"

definition write_fragment :: "url_URL \<Rightarrow> string \<Rightarrow> string" where
  "write_fragment u buf =
     (if Fragment u \<noteq> [] then buf @ ''#'' @ EscapedFragment u else buf)"

definition URL_String :: "url_URL \<Rightarrow> string" where
  "URL_String u =
     (let buf = (if Scheme u \<noteq> [] then Scheme u @ '':'' else []) in
      write_fragment u
        (write_query u
           (if Opaque u \<noteq> [] then buf @ Opaque u
            else write_path u (write_authority u buf))))"

section \<open>The HTTP handlers\<close>

text \<open>\<^verbatim>\<open>type URL struct { Value string `json:"url"` }\<close>: the request body. A handler is
  given what \<^verbatim>\<open>c.BodyParser\<close> made of the body: its error, or the struct (a JSON object
  without a \<^verbatim>\<open>url\<close> member leaves \<open>Value\<close> empty).\<close>

record URL =
  Value :: string

datatype json = JString string | JError url_Error | JPair SlugURLPair | JResult nat

text \<open>A response body: a \<^verbatim>\<open>fiber.Map\<close> sent as JSON (keys in the order the encoder
  writes them), plain text, or nothing.\<close>

datatype body = Json "(string \<times> json) list" | Text string | NoBody

record response =
  status :: nat
  payload :: body
  location :: "string option"

text \<open>\<^verbatim>\<open>collection.InsertOne\<close>: one round trip; the document goes to the end of the
  collection and its position stands for \<^verbatim>\<open>InsertedID\<close>. \<open>None\<close> is an error.\<close>

definition InsertOne :: "SlugURLPair \<Rightarrow> world \<Rightarrow> nat option \<times> world" where
  "InsertOne d w =
     (let w' = w\<lparr>store_calls := Suc (store_calls w)\<rparr> in
      if store_down w (store_calls w) then (None, w')
      else (Some (length (docs w)), w'\<lparr>docs := docs w @ [d]\<rparr>))"

text \<open>
  \<^verbatim>\<open>
  func createTTLIndex(slugURLPairCollection *mongo.Collection) error {
      ...
      _, err := slugURLPairCollection.Indexes().CreateOne(context.TODO(), indexModel)
      if err != nil {
          log.Panic(err)
      }
      return err
  }\<close>
\<close>

definition createTTLIndex :: "world \<Rightarrow> (crash + unit) \<times> world" where
  "createTTLIndex w =
     (let w' = w\<lparr>store_calls := Suc (store_calls w)\<rparr> in
      if store_down w (store_calls w) then (Inl LogPanic, w')
      else (Inr (), w'\<lparr>ttl_index := True\<rparr>))"

text \<open>\<^verbatim>\<open>http.Get(url)\<close>, after \<^verbatim>\<open>net/http\<close> (Go 1.20). \<^verbatim>\<open>NewRequest\<close> parses the string
  with \<^verbatim>\<open>url.Parse\<close> and strips an empty port from the host
  (\<^verbatim>\<open>u.Host = removeEmptyPort(u.Host)\<close>); the transport refuses a scheme other than
  \<^verbatim>\<open>http\<close> and \<^verbatim>\<open>https\<close> ("unsupported protocol scheme") and an empty host
  ("http: no Host in request URL") before anything is sent. \<open>None\<close> is a non-nil error,
  otherwise the status code of the response.\<close>

definition TrimSuffix :: "string \<Rightarrow> string \<Rightarrow> string" where
  "TrimSuffix s suffix = (if HasSuffix s suffix then take (length s - length suffix) s else s)"

text \<open>\<^verbatim>\<open>strings.LastIndex(s, ":") > strings.LastIndex(s, "]")\<close>\<close>

definition hasPort :: "string \<Rightarrow> bool" where
  "hasPort s =
     (case LastIndex s '':'' of
        None \<Rightarrow> False
      | Some i \<Rightarrow> (case LastIndex s '']'' of None \<Rightarrow> True | Some j \<Rightarrow> j < i))"

definition removeEmptyPort :: "string \<Rightarrow> string" where
  "removeEmptyPort host = (if hasPort host then TrimSuffix host '':'' else host)"

definition http_Get :: "string \<Rightarrow> world \<Rightarrow> nat option" where
  "http_Get url w =
     (case Parse url of
        Inl err \<Rightarrow> None
      | Inr u \<Rightarrow>
          if Scheme u \<noteq> ''http'' \<and> Scheme u \<noteq> ''https'' then None
          else if removeEmptyPort (Host u) = [] then None
          else network w url)"

text \<open>
  \<^verbatim>\<open>
  func isValidURL(str string) bool {
      resp, err := http.Get(str)
      if err != nil {
          return false
      }
      defer resp.Body.Close()
      return resp.StatusCode >= 200
  }\<close>
\<close>

definition isValidURL :: "string \<Rightarrow> world \<Rightarrow> bool" where
  "isValidURL str w = (case http_Get str w of None \<Rightarrow> False | Some code \<Rightarrow> code \<ge> 200)"

text \<open>
  \<^verbatim>\<open>part_000\<close>, lines 76-86; \<open>Inl\<close> is the return \<^verbatim>\<open>("", err)\<close>:
  \<^verbatim>\<open>
  func assertProtocol(redirectUrl string) (string, error) {
      u, err := url.Parse(redirectUrl)
      if err != nil {
          return "", err
      }
      if u.Scheme != "http" && u.Scheme != "https" {
          u.Scheme = "https"
      }
      return u.String(), nil
  }\<close>
\<close>

definition assertProtocol :: "string \<Rightarrow> url_Error + string" where
  "assertProtocol redirectUrl =
     (case Parse redirectUrl of
        Inl err \<Rightarrow> Inl err
      | Inr u \<Rightarrow>
          Inr (URL_String
                 (if Scheme u \<noteq> ''http'' \<and> Scheme u \<noteq> ''https'' then u\<lparr>Scheme := ''https''\<rparr>
                  else u)))"


definition bad_request :: "(string \<times> json) list \<Rightarrow> response" where
  "bad_request m = \<lparr>status = 400, payload = Json m, location = None\<rparr>"

definition five_days :: int where
  "five_days = 5 * 24 * 3600 * 1000000000"

text \<open>From the unique slug to the response: lines 147-168 of \<^verbatim>\<open>part_000\<close>, the same
  as lines 132-153 of \<^verbatim>\<open>main.go\<close>. \<open>None\<close>: the slug loop never returns.\<close>

definition persist :: "string \<Rightarrow> world \<Rightarrow> ((crash + response) \<times> world) option" where
  "persist value w =
     (case generateUniqueSlug w of
        None \<Rightarrow> None
      | Some (Inl p, w1) \<Rightarrow> Some (Inl p, w1)
      | Some (Inr uniqueSlug, w1) \<Rightarrow>
          (let slugURLPair = \<lparr>Slug = uniqueSlug, Url = value, ExpireAt = clock w1 + five_days\<rparr> in
           case InsertOne slugURLPair w1 of
             (None, w2) \<Rightarrow> Some (Inl LogFatal, w2)
           | (Some result, w2) \<Rightarrow>
               (case createTTLIndex w2 of
                  (Inl p, w3) \<Rightarrow> Some (Inl p, w3)
                | (Inr _, w3) \<Rightarrow>
                    Some (Inr \<lparr>status = 200,
                               payload = Json [(''result'', JResult result),
                                               (''slugURLPair'', JPair slugURLPair)],
                               location = None\<rparr>, w3))))"

text \<open>\<^verbatim>\<open>app.Post("/createSlugURLPair", ...)\<close> of \<^verbatim>\<open>part_000\<close>, lines 127-169.\<close>

definition createSlugURLPair :: "string + URL \<Rightarrow> world \<Rightarrow> ((crash + response) \<times> world) option" where
  "createSlugURLPair parsed w =
     (case parsed of
        Inl err \<Rightarrow>
          Some (Inr (bad_request [(''err'', JString err),
                                  (''message'', JString ''Body must contain a `url` field.'')]), w)
      | Inr url \<Rightarrow>
          (case assertProtocol (Value url) of
             Inl err \<Rightarrow> Some (Inr (bad_request [(''message'', JString ''Invalid URL'')]), w)
           | Inr value \<Rightarrow>
               if \<not> isValidURL value w then
                 Some (Inr (bad_request [(''message'', JString ''Invalid URL'')]), w)
               else persist value w))"

text \<open>\<^verbatim>\<open>app.Post("/createSlugURLPair", ...)\<close> of \<^verbatim>\<open>main.go\<close>, lines 110-154: the URL is
  parsed in the handler, an empty scheme becomes \<^verbatim>\<open>http\<close>, nothing is probed.\<close>

definition createSlugURLPair_main :: "string + URL \<Rightarrow> world \<Rightarrow> ((crash + response) \<times> world) option" where
  "createSlugURLPair_main parsed w =
     (case parsed of
        Inl err \<Rightarrow>
          Some (Inr (bad_request [(''err'', JString err),
                                  (''message'', JString ''Body must contain a `url` field.'')]), w)
      | Inr bodyUrl \<Rightarrow>
          (case Parse (Value bodyUrl) of
             Inl err \<Rightarrow>
               Some (Inr (bad_request [(''err'', JError err), (''message'', JString ''Invalid URL.'')]), w)
           | Inr url \<Rightarrow>
               persist (URL_String (if Scheme url = [] then url\<lparr>Scheme := ''http''\<rparr> else url)) w))"

text \<open>\<^verbatim>\<open>app.Get("/:slug", ...)\<close>, the same in every version; \<^verbatim>\<open>c.Redirect\<close> sets the
  \<^verbatim>\<open>Location\<close> header and the status 302.\<close>

definition getSlug :: "string \<Rightarrow> world \<Rightarrow> response \<times> world" where
  "getSlug slugParam w =
     (case FindOne slugParam w of
        (Inl err, w') \<Rightarrow>
          (\<lparr>status = 404, payload = Text ''404: Error - Unable to find redirection URL.'',
            location = None\<rparr>, w')
      | (Inr result, w') \<Rightarrow>
          (\<lparr>status = 302, payload = NoBody, location = Some (Url result)\<rparr>, w'))"

section \<open>The rate limiter's key\<close>

text \<open>\<^verbatim>\<open>strings.Join(elems, sep)\<close>\<close>

fun Join :: "string list \<Rightarrow> string \<Rightarrow> string" where
  "Join [] sep = []"
| "Join [e] sep = e"
| "Join (e # es) sep = e @ sep @ Join es sep"

text \<open>\<^verbatim>\<open>main.go\<close>, lines 103-107, on the list \<^verbatim>\<open>c.IPs()\<close>:
  \<^verbatim>\<open>KeyGenerator: func(c *fiber.Ctx) string { return strings.Join(c.IPs(), "") }\<close>\<close>

definition KeyGenerator :: "string list \<Rightarrow> string" where
  "KeyGenerator ips = Join ips []"

section \<open>Plain URLs\<close>




section \<open>Worlds used as concrete inputs\<close>

text \<open>A healthy world with an empty collection; every random draw is index \<open>0\<close>.\<close>

definition calm :: world where
  "calm = \<lparr>docs = [], rand_reader = (\<lambda>k. (Some 0, False)), rand_calls = 0,
     store_down = (\<lambda>k. False), store_calls = 0, ttl_index = False,
     network = (\<lambda>u. Some 200), clock = 0\<rparr>"

definition old_pair :: SlugURLPair where
  "old_pair = \<lparr>Slug = ''aaaaa'', Url = ''https://old.example'', ExpireAt = 1\<rparr>"

text \<open>The collection already holds a record with the slug \<open>aaaaa\<close>.\<close>

definition taken :: world where
  "taken = calm\<lparr>docs := [old_pair]\<rparr>"

text \<open>As \<open>taken\<close>, and the first round trip to the database fails.\<close>

definition store_failing :: world where
  "store_failing = calm\<lparr>docs := [old_pair], store_down := (\<lambda>k. k = 0)\<rparr>"

text \<open>The random source fails at every call: \<^verbatim>\<open>rand.Int\<close> returns \<^verbatim>\<open>(nil, err)\<close>.\<close>

definition rand_fails :: world where
  "rand_fails = calm\<lparr>rand_reader := (\<lambda>k. (None, True))\<rparr>"

text \<open>The random source yields 0 and 1 (the second with an error flag set beside a
  non-nil result), and fails at its third call.\<close>

definition rand_glitch :: world where
  "rand_glitch = calm\<lparr>rand_reader := (\<lambda>k. if k = 2 then (None, True) else (Some (int k), k = 1))\<rparr>"

text \<open>A healthy database whose fourth round trip fails.\<close>

definition get_fails :: world where
  "get_fails = calm\<lparr>store_down := (\<lambda>k. k = 3)\<rparr>"

text \<open>No URL can be fetched: every round trip fails.\<close>

definition offline :: world where
  "offline = calm\<lparr>network := (\<lambda>u. None)\<rparr>"

section \<open>Properties of the slug generator\<close>

lemma sint_small: "0 \<le> v \<Longrightarrow> v < 64 \<Longrightarrow> sint (word_of_int v :: 64 word) = v"
  by (simp add: sint_sbintrunc' signed_take_bit_int_eq_self)

lemma rune_at_mem: "rune_at xs i = Inr c \<Longrightarrow> c \<in> set xs"
  by (auto simp: rune_at_def split: if_splits)

lemma rune_at_alphabet:
  "0 \<le> v \<Longrightarrow> v < 64 \<Longrightarrow> rune_at SLUG_ALPHABET (word_of_int v) = Inr (SLUG_ALPHABET ! nat v)"
  by (simp add: rune_at_def sint_small SLUG_ALPHABET_def)

lemma generateRandomString_Suc_Inr:
  assumes "generateRandomString (Suc n) w = (Inr s, w')"
  obtains v e c cs where "rand_reader w (rand_calls w) = (Some v, e)"
    and "rune_at SLUG_ALPHABET (word_of_int v) = Inr c"
    and "generateRandomString n (w\<lparr>rand_calls := Suc (rand_calls w)\<rparr>) = (Inr cs, w')"
    and "s = c # cs"
  using assms
  by (cases "rand_reader w (rand_calls w)"; cases "fst (rand_reader w (rand_calls w))")
     (auto simp: rand_Int_def split: prod.splits sum.splits)

lemma generateRandomString_Inr:
  "generateRandomString n w = (Inr s, w') \<Longrightarrow>
     length s = n \<and> set s \<subseteq> set SLUG_ALPHABET \<and> w' = w\<lparr>rand_calls := rand_calls w + n\<rparr>"
proof (induction n arbitrary: w s w')
  case 0
  then show ?case by simp
next
  case (Suc n)
  from Suc.prems obtain v e c cs where
    c: "rune_at SLUG_ALPHABET (word_of_int v) = Inr c" and
    rest: "generateRandomString n (w\<lparr>rand_calls := Suc (rand_calls w)\<rparr>) = (Inr cs, w')" and
    s: "s = c # cs"
    by (rule generateRandomString_Suc_Inr)
  from Suc.IH [OF rest] rune_at_mem [OF c] s show ?case by simp
qed

text \<open>The draws decide the string: while every returned pointer is non-nil, with a
  value below 64, position \<open>k\<close> is the alphabet's symbol at the \<open>k\<close>-th value. The error
  flags \<open>es\<close> are arbitrary.\<close>

lemma generateRandomString_draws:
  "(\<forall>k<length vs. rand_reader w (rand_calls w + k) = (Some (vs ! k), es k) \<and> 0 \<le> vs ! k \<and> vs ! k < 64) \<Longrightarrow>
     generateRandomString (length vs) w =
       (Inr (map (\<lambda>v. SLUG_ALPHABET ! nat v) vs), w\<lparr>rand_calls := rand_calls w + length vs\<rparr>)"
proof (induction vs arbitrary: w es)
  case Nil
  then show ?case by simp
next
  case (Cons v vs)
  let ?w1 = "w\<lparr>rand_calls := Suc (rand_calls w)\<rparr>"
  from Cons.prems have hd: "rand_reader w (rand_calls w) = (Some v, es 0)" "0 \<le> v" "v < 64"
    by auto
  have tl: "\<forall>k<length vs. rand_reader ?w1 (rand_calls ?w1 + k) = (Some (vs ! k), (es \<circ> Suc) k)
      \<and> 0 \<le> vs ! k \<and> vs ! k < 64"
    using Cons.prems by fastforce
  show ?case
    using hd(1) rune_at_alphabet [OF hd(2,3)] Cons.IH [OF tl] by (simp add: rand_Int_def)
qed

lemma generateRandomString_nil:
  "(\<forall>k<length vs. rand_reader w (rand_calls w + k) = (Some (vs ! k), es k) \<and> 0 \<le> vs ! k \<and> vs ! k < 64) \<Longrightarrow>
   rand_reader w (rand_calls w + length vs) = (None, e) \<Longrightarrow> length vs < n \<Longrightarrow>
     generateRandomString n w =
       (Inl NilPointerDereference, w\<lparr>rand_calls := Suc (rand_calls w + length vs)\<rparr>)"
proof (induction vs arbitrary: w es n)
  case Nil
  then obtain m where "n = Suc m" by (cases n) auto
  with Nil show ?case by (simp add: rand_Int_def)
next
  case (Cons v vs)
  let ?w1 = "w\<lparr>rand_calls := Suc (rand_calls w)\<rparr>"
  from Cons.prems(3) obtain m where n: "n = Suc m" "length vs < m" by (cases n) auto
  from Cons.prems have hd: "rand_reader w (rand_calls w) = (Some v, es 0)" "0 \<le> v" "v < 64"
    by auto
  have tl: "\<forall>k<length vs. rand_reader ?w1 (rand_calls ?w1 + k) = (Some (vs ! k), (es \<circ> Suc) k)
      \<and> 0 \<le> vs ! k \<and> vs ! k < 64"
    using Cons.prems(1) by fastforce
  have nil: "rand_reader ?w1 (rand_calls ?w1 + length vs) = (None, e)"
    using Cons.prems(2) by simp
  show ?case
    using hd(1) rune_at_alphabet [OF hd(2,3)] n Cons.IH [OF tl nil n(2)] by (simp add: rand_Int_def)
qed

lemma generateRandomString_returns:
  assumes "\<forall>k<n. \<exists>v e. rand_reader w (rand_calls w + k) = (Some v, e) \<and> 0 \<le> v \<and> v < 64"
  shows "\<exists>s. generateRandomString n w = (Inr s, w\<lparr>rand_calls := rand_calls w + n\<rparr>)"
proof -
  define vs where "vs = map (\<lambda>k. the (fst (rand_reader w (rand_calls w + k)))) [0..<n]"
  define es where "es = (\<lambda>k. snd (rand_reader w (rand_calls w + k)))"
  have len: "length vs = n" by (simp add: vs_def)
  have "\<forall>k<length vs. rand_reader w (rand_calls w + k) = (Some (vs ! k), es k) \<and> 0 \<le> vs ! k \<and> vs ! k < 64"
  proof (intro allI impI)
    fix k assume "k < length vs"
    then have k: "k < n" by (simp add: len)
    with assms obtain v e where "rand_reader w (rand_calls w + k) = (Some v, e)" "0 \<le> v" "v < 64"
      by blast
    with k show "rand_reader w (rand_calls w + k) = (Some (vs ! k), es k) \<and> 0 \<le> vs ! k \<and> vs ! k < 64"
      by (simp add: vs_def es_def)
  qed
  from generateRandomString_draws [OF this] len show ?thesis by auto
qed

lemma FindOne_found:
  assumes "s \<in> Slug ` set (docs w)" and "\<not> store_down w (store_calls w)"
  shows "\<exists>d. FindOne s w = (Inr d, w\<lparr>store_calls := Suc (store_calls w)\<rparr>) \<and> d \<in> set (docs w) \<and> Slug d = s"
proof -
  from assms(1) have "\<exists>d. d \<in> set (docs w) \<and> Slug d = s" by auto
  then obtain d where d: "find (\<lambda>d. Slug d = s) (docs w) = Some d"
    by (cases "find (\<lambda>d. Slug d = s) (docs w)") (auto simp: find_None_iff)
  then have "d \<in> set (docs w) \<and> Slug d = s"
    by (auto simp: find_Some_iff)
  with d assms(2) show ?thesis
    by (simp add: FindOne_def Let_def)
qed

lemma FindOne_absent:
  assumes "s \<notin> Slug ` set (docs w)" and "\<not> store_down w (store_calls w)"
  shows "FindOne s w = (Inl ErrNoDocuments, w\<lparr>store_calls := Suc (store_calls w)\<rparr>)"
proof -
  from assms(1) have "find (\<lambda>d. Slug d = s) (docs w) = None"
    by (auto simp: find_None_iff)
  with assms(2) show ?thesis by (simp add: FindOne_def Let_def)
qed

lemma FindOne_down:
  "store_down w (store_calls w) \<Longrightarrow>
     FindOne s w = (Inl ErrStore, w\<lparr>store_calls := Suc (store_calls w)\<rparr>)"
  by (simp add: FindOne_def Let_def)

lemma retryLoop_error: "retryLoop (Some e) s w = Some w"
  by (subst retryLoop.simps) simp

lemma retryLoop_step:
  "retryLoop None s w = (case FindOne s w of (r, w') \<Rightarrow> retryLoop (err_of r) s w')"
  by (subst retryLoop.simps) simp

lemma retryLoop_first_error: "FindOne s w = (Inl e, w') \<Longrightarrow> retryLoop None s w = Some w'"
  by (simp add: retryLoop_step retryLoop_error)

text \<open>With the slug in the collection and a database that never fails, no iteration
  of the loop can be the last one.\<close>

lemma retryLoop_returns_only_on_error:
  assumes ret: "retryLoop err s w = Some y"
  shows "\<not> (err = None \<and> s \<in> Slug ` set (docs w) \<and> (\<forall>k. \<not> store_down w k))"
proof (rule retryLoop.raw_induct
    [where P = "\<lambda>err s w y. \<not> (err = None \<and> s \<in> Slug ` set (docs w) \<and> (\<forall>k. \<not> store_down w k))",
      OF _ ret])
  fix loop :: "find_error option \<Rightarrow> string \<Rightarrow> world \<Rightarrow> world option"
  fix err s w y
  assume IH: "\<And>err s w y. loop err s w = Some y \<Longrightarrow>
      \<not> (err = None \<and> s \<in> Slug ` set (docs w) \<and> (\<forall>k. \<not> store_down w k))"
  assume step: "(if err = None then case FindOne s w of (r, w') \<Rightarrow> loop (err_of r) s w'
      else Some w) = Some y"
  show "\<not> (err = None \<and> s \<in> Slug ` set (docs w) \<and> (\<forall>k. \<not> store_down w k))"
  proof
    assume inv: "err = None \<and> s \<in> Slug ` set (docs w) \<and> (\<forall>k. \<not> store_down w k)"
    then obtain d where f: "FindOne s w = (Inr d, w\<lparr>store_calls := Suc (store_calls w)\<rparr>)"
      using FindOne_found [of s w] by auto
    with inv step have "loop None s (w\<lparr>store_calls := Suc (store_calls w)\<rparr>) = Some y"
      by simp
    from IH [OF this] inv show False by simp
  qed
qed

lemma retryLoop_never_returns:
  "s \<in> Slug ` set (docs w) \<Longrightarrow> (\<forall>k. \<not> store_down w k) \<Longrightarrow> retryLoop None s w = None"
  using retryLoop_returns_only_on_error [of None s w] by (cases "retryLoop None s w") auto

lemma generateUniqueSlug_Inr:
  assumes "generateUniqueSlug w = Some (Inr s, w')"
  shows "\<exists>w1. generateRandomString 5 w = (Inr s, w1)"
  using assms
  by (auto simp: generateUniqueSlug_def split: prod.splits sum.splits option.splits)

lemma retryLoop_frame:
  assumes ret: "retryLoop err s w = Some w'"
  shows "\<exists>k. w' = w\<lparr>store_calls := store_calls w + k\<rparr>"
proof (rule retryLoop.raw_induct
    [where P = "\<lambda>err s w w'. \<exists>k. w' = w\<lparr>store_calls := store_calls w + k\<rparr>", OF _ ret])
  fix loop :: "find_error option \<Rightarrow> string \<Rightarrow> world \<Rightarrow> world option"
  fix err s w y
  assume IH: "\<And>err s w y. loop err s w = Some y \<Longrightarrow> \<exists>k. y = w\<lparr>store_calls := store_calls w + k\<rparr>"
  assume step: "(if err = None then case FindOne s w of (r, w') \<Rightarrow> loop (err_of r) s w'
      else Some w) = Some y"
  show "\<exists>k. y = w\<lparr>store_calls := store_calls w + k\<rparr>"
  proof (cases "err = None")
    case False
    with step have "y = w\<lparr>store_calls := store_calls w + 0\<rparr>" by simp
    then show ?thesis by blast
  next
    case True
    obtain r w1 where f: "FindOne s w = (r, w1)" by (cases "FindOne s w")
    then have w1: "w1 = w\<lparr>store_calls := Suc (store_calls w)\<rparr>"
      by (auto simp: FindOne_def Let_def split: if_splits option.splits)
    from True step f have "loop (err_of r) s w1 = Some y" by simp
    from IH [OF this] obtain k where "y = w1\<lparr>store_calls := store_calls w1 + k\<rparr>" by blast
    with w1 have "y = w\<lparr>store_calls := store_calls w + Suc k\<rparr>" by simp
    then show ?thesis by blast
  qed
qed

lemma FindOne_frame:
  "FindOne s w = (r, w') \<Longrightarrow> w' = w\<lparr>store_calls := Suc (store_calls w)\<rparr>"
  by (auto simp: FindOne_def Let_def split: if_splits option.splits)

lemma generateUniqueSlug_returns:
  assumes "generateUniqueSlug w = Some (Inr s, w1)"
  obtains k where "generateRandomString 5 w = (Inr s, w\<lparr>rand_calls := rand_calls w + 5\<rparr>)"
    and "w1 = w\<lparr>rand_calls := rand_calls w + 5, store_calls := Suc (store_calls w + k)\<rparr>"
proof -
  from assms obtain wa where g: "generateRandomString 5 w = (Inr s, wa)"
    using generateUniqueSlug_Inr by blast
  from generateRandomString_Inr [OF g] have wa: "wa = w\<lparr>rand_calls := rand_calls w + 5\<rparr>"
    by simp
  obtain r wb where f: "FindOne s wa = (r, wb)" by (cases "FindOne s wa")
  from FindOne_frame [OF f] have wb: "wb = wa\<lparr>store_calls := Suc (store_calls wa)\<rparr>" .
  from assms g f have "retryLoop (err_of r) s wb = Some w1"
    by (simp add: generateUniqueSlug_def split: option.splits)
  from retryLoop_frame [OF this] obtain k where "w1 = wb\<lparr>store_calls := store_calls wb + k\<rparr>"
    by blast
  with wa wb have "w1 = w\<lparr>rand_calls := rand_calls w + 5, store_calls := Suc (store_calls w + k)\<rparr>"
    by simp
  with g wa that show thesis by simp
qed

text \<open>
  Claim C3. Every string returned by \<^verbatim>\<open>generateRandomString(5)\<close>, and so every slug
  returned by \<^verbatim>\<open>generateUniqueSlug\<close>, has exactly 5 characters, each of them a member
  of \<^verbatim>\<open>SLUG_ALPHABET\<close>, which holds 64 distinct symbols: the lower-case letters, the
  upper-case letters, the digits, \<open>_\<close> and \<open>-\<close>. A string is returned whenever the five
  draws give non-nil indices below 64.
\<close>

theorem generated_slug_length_and_alphabet:
  "(generateRandomString 5 w = (Inr s, w') \<longrightarrow> length s = 5 \<and> set s \<subseteq> set SLUG_ALPHABET)
   \<and> (generateUniqueSlug w = Some (Inr s, w') \<longrightarrow> length s = 5 \<and> set s \<subseteq> set SLUG_ALPHABET)
   \<and> ((\<forall>k<5. \<exists>v e. rand_reader w (rand_calls w + k) = (Some v, e) \<and> 0 \<le> v \<and> v < 64) \<longrightarrow>
        (\<exists>t. generateRandomString 5 w = (Inr t, w\<lparr>rand_calls := rand_calls w + 5\<rparr>)))
   \<and> length SLUG_ALPHABET = 64 \<and> distinct SLUG_ALPHABET
   \<and> set SLUG_ALPHABET =
       set ''abcdefghijklmnopqrstuvwxyz'' \<union> set ''ABCDEFGHIJKLMNOPQRSTUVWXYZ''
         \<union> set ''0123456789'' \<union> {CHR ''_'', CHR ''-''}"
proof (intro conjI impI)
  assume "generateRandomString 5 w = (Inr s, w')"
  from generateRandomString_Inr [OF this]
  show "length s = 5" and "set s \<subseteq> set SLUG_ALPHABET" by simp_all
next
  assume "generateUniqueSlug w = Some (Inr s, w')"
  then obtain w1 where "generateRandomString 5 w = (Inr s, w1)"
    using generateUniqueSlug_Inr by blast
  from generateRandomString_Inr [OF this]
  show "length s = 5" and "set s \<subseteq> set SLUG_ALPHABET" by simp_all
next
  assume "\<forall>k<5. \<exists>v e. rand_reader w (rand_calls w + k) = (Some v, e) \<and> 0 \<le> v \<and> v < 64"
  then show "\<exists>t. generateRandomString 5 w = (Inr t, w\<lparr>rand_calls := rand_calls w + 5\<rparr>)"
    by (rule generateRandomString_returns)
next
  show "length SLUG_ALPHABET = 64" by (simp add: SLUG_ALPHABET_def)
next
  show "distinct SLUG_ALPHABET" by (simp add: SLUG_ALPHABET_def)
next
  show "set SLUG_ALPHABET =
       set ''abcdefghijklmnopqrstuvwxyz'' \<union> set ''ABCDEFGHIJKLMNOPQRSTUVWXYZ''
         \<union> set ''0123456789'' \<union> {CHR ''_'', CHR ''-''}"
    unfolding SLUG_ALPHABET_def by (simp add: insert_commute)
qed

theorem generated_slug_length_and_alphabet_witness:
  "generateRandomString 5 calm = (Inr ''aaaaa'', calm\<lparr>rand_calls := 5\<rparr>)
   \<and> generateUniqueSlug calm = Some (Inr ''aaaaa'', calm\<lparr>rand_calls := 5, store_calls := 1\<rparr>)
   \<and> length ''aaaaa'' = 5 \<and> set ''aaaaa'' \<subseteq> set SLUG_ALPHABET"
proof -
  have g: "generateRandomString 5 calm = (Inr ''aaaaa'', calm\<lparr>rand_calls := 5\<rparr>)"
    by (simp add: eval_nat_numeral rand_Int_def calm_def rune_at_def SLUG_ALPHABET_def)
  have f: "FindOne ''aaaaa'' (calm\<lparr>rand_calls := 5\<rparr>)
      = (Inl ErrNoDocuments, calm\<lparr>rand_calls := 5, store_calls := 1\<rparr>)"
    by (simp add: FindOne_def calm_def)
  have u: "generateUniqueSlug calm = Some (Inr ''aaaaa'', calm\<lparr>rand_calls := 5, store_calls := 1\<rparr>)"
    by (simp add: generateUniqueSlug_def g f retryLoop_error)
  from generated_slug_length_and_alphabet [of calm "''aaaaa''" "calm\<lparr>rand_calls := 5\<rparr>"] g u
  show ?thesis by simp
qed

text \<open>
  Claim C7, as the code has it. \<^verbatim>\<open>generateRandomString\<close> never looks at the error of
  \<^verbatim>\<open>rand.Int\<close>; it uses the returned pointer. While the pointers are non-nil (values
  below 64) the string is made of the alphabet's symbols at those values, whatever
  the error flags say. At the first nil pointer, which is what \<^verbatim>\<open>rand.Int\<close> returns
  beside an error, \<^verbatim>\<open>randomIndex.Int64()\<close> dereferences nil: the function panics
  and returns no string.
\<close>

theorem random_error_discarded_nil_result_panics:
  "(\<forall>k<length vs. rand_reader w (rand_calls w + k) = (Some (vs ! k), es k) \<and> 0 \<le> vs ! k \<and> vs ! k < 64) \<longrightarrow>
     generateRandomString (length vs) w =
       (Inr (map (\<lambda>v. SLUG_ALPHABET ! nat v) vs), w\<lparr>rand_calls := rand_calls w + length vs\<rparr>)
     \<and> (rand_reader w (rand_calls w + length vs) = (None, e) \<and> length vs < n \<longrightarrow>
          generateRandomString n w =
            (Inl NilPointerDereference, w\<lparr>rand_calls := Suc (rand_calls w + length vs)\<rparr>))"
  using generateRandomString_draws [of vs w es] generateRandomString_nil [of vs w es e n]
  by blast

theorem random_error_discarded_nil_result_panics_witness:
  "generateRandomString 2 rand_glitch = (Inr ''ab'', rand_glitch\<lparr>rand_calls := 2\<rparr>)
   \<and> generateRandomString 5 rand_glitch = (Inl NilPointerDereference, rand_glitch\<lparr>rand_calls := 3\<rparr>)"
proof -
  have h: "\<forall>k<length [0, 1 :: int]. rand_reader rand_glitch (rand_calls rand_glitch + k)
      = (Some ([0, 1] ! k), k = 1) \<and> 0 \<le> [0, 1 :: int] ! k \<and> [0, 1 :: int] ! k < 64"
    by (simp add: rand_glitch_def calm_def nth_Cons' less_Suc_eq)
  have n: "rand_reader rand_glitch (rand_calls rand_glitch + length [0, 1 :: int]) = (None, True)
      \<and> length [0, 1 :: int] < 5"
    by (simp add: rand_glitch_def calm_def)
  have a: "map (\<lambda>v. SLUG_ALPHABET ! nat v) [0, 1] = ''ab''"
    by (simp add: SLUG_ALPHABET_def)
  have c: "rand_calls rand_glitch = 0"
    by (simp add: rand_glitch_def calm_def)
  have l: "length [0, 1 :: int] = 2"
    by simp
  from random_error_discarded_nil_result_panics
    [of "[0, 1]" rand_glitch "\<lambda>k. k = 1" True 5] h n
  have "generateRandomString (length [0, 1 :: int]) rand_glitch =
       (Inr (map (\<lambda>v. SLUG_ALPHABET ! nat v) [0, 1]),
        rand_glitch\<lparr>rand_calls := rand_calls rand_glitch + length [0, 1 :: int]\<rparr>)
     \<and> generateRandomString 5 rand_glitch =
       (Inl NilPointerDereference,
        rand_glitch\<lparr>rand_calls := Suc (rand_calls rand_glitch + length [0, 1 :: int])\<rparr>)"
    by blast
  then show ?thesis unfolding l a c by simp
qed

text \<open>Against claim C7 as stated: with a failing random source no string comes back,
  let alone one made of the alphabet's first symbol; the request panics.\<close>

theorem random_failure_counterexample:
  "fst (generateRandomString 5 rand_fails) = Inl NilPointerDereference
   \<and> fst (generateRandomString 5 rand_fails) \<noteq> Inr ''aaaaa''
   \<and> map_option fst (generateUniqueSlug rand_fails) = Some (Inl NilPointerDereference)"
  by (simp add: generateUniqueSlug_def eval_nat_numeral rand_Int_def rand_fails_def calm_def)

text \<open>
  Claim C9. \<^verbatim>\<open>generateUniqueSlug\<close> takes every error of the lookup as "the slug is
  free": if the lookup of the candidate returns an error \<open>e\<close>, \<^verbatim>\<open>ErrNoDocuments\<close> or
  any other, the candidate is returned at once; the same holds at every later
  iteration of the loop. In particular, when the round trip fails the candidate is
  returned whether or not the collection holds it.
\<close>

theorem any_lookup_error_ends_the_search:
  "generateRandomString 5 w = (Inr s, w1) \<longrightarrow>
     (FindOne s w1 = (Inl e, w2) \<longrightarrow> generateUniqueSlug w = Some (Inr s, w2))
     \<and> (store_down w1 (store_calls w1) \<longrightarrow>
          generateUniqueSlug w = Some (Inr s, w1\<lparr>store_calls := Suc (store_calls w1)\<rparr>))
     \<and> (FindOne s w3 = (Inl e, w4) \<longrightarrow> retryLoop None s w3 = Some w4)"
proof (intro impI conjI)
  assume g: "generateRandomString 5 w = (Inr s, w1)"
  {
    assume "FindOne s w1 = (Inl e, w2)"
    with g show "generateUniqueSlug w = Some (Inr s, w2)"
      by (simp add: generateUniqueSlug_def retryLoop_error)
  }
  {
    assume "store_down w1 (store_calls w1)"
    from FindOne_down [OF this, of s] g
    show "generateUniqueSlug w = Some (Inr s, w1\<lparr>store_calls := Suc (store_calls w1)\<rparr>)"
      by (simp add: generateUniqueSlug_def retryLoop_error)
  }
  {
    assume "FindOne s w3 = (Inl e, w4)"
    then show "retryLoop None s w3 = Some w4" by (rule retryLoop_first_error)
  }
qed

theorem any_lookup_error_ends_the_search_witness:
  "generateUniqueSlug store_failing
     = Some (Inr ''aaaaa'', store_failing\<lparr>rand_calls := 5, store_calls := 1\<rparr>)
   \<and> ''aaaaa'' \<in> Slug ` set (docs store_failing)"
proof -
  have g: "generateRandomString 5 store_failing = (Inr ''aaaaa'', store_failing\<lparr>rand_calls := 5\<rparr>)"
    by (simp add: eval_nat_numeral rand_Int_def store_failing_def calm_def rune_at_def
        SLUG_ALPHABET_def)
  have d: "store_down (store_failing\<lparr>rand_calls := 5\<rparr>) (store_calls (store_failing\<lparr>rand_calls := 5\<rparr>))"
    by (simp add: store_failing_def calm_def)
  from any_lookup_error_ends_the_search
    [of store_failing "''aaaaa''" "store_failing\<lparr>rand_calls := 5\<rparr>"] g d
  have "generateUniqueSlug store_failing
     = Some (Inr ''aaaaa'', store_failing\<lparr>rand_calls := 5, store_calls := 1\<rparr>)"
    by (simp add: store_failing_def calm_def)
  then show ?thesis by (simp add: store_failing_def calm_def old_pair_def)
qed

text \<open>
  Claim C1, where the code departs from it. In any world, a slug that
  \<^verbatim>\<open>generateUniqueSlug\<close> returns is the first and only candidate: the random source
  is read exactly five times, whatever the lookups say. At the failing input (the
  collection holds the first candidate, the database never fails and the collection
  does not change) the loop asks for the same slug again and again and the function
  never returns.
\<close>

theorem taken_candidate_is_never_replaced:
  "generateUniqueSlug taken = None
   \<and> (generateUniqueSlug w = Some (Inr s, w') \<longrightarrow>
        fst (generateRandomString 5 w) = Inr s \<and> rand_calls w' = rand_calls w + 5)"
proof
  have g: "generateRandomString 5 taken = (Inr ''aaaaa'', taken\<lparr>rand_calls := 5\<rparr>)"
    by (simp add: eval_nat_numeral rand_Int_def taken_def calm_def rune_at_def SLUG_ALPHABET_def)
  have f: "FindOne ''aaaaa'' (taken\<lparr>rand_calls := 5\<rparr>)
      = (Inr old_pair, taken\<lparr>rand_calls := 5, store_calls := 1\<rparr>)"
    by (simp add: FindOne_def taken_def calm_def old_pair_def)
  have "retryLoop None ''aaaaa'' (taken\<lparr>rand_calls := 5, store_calls := 1\<rparr>) = None"
    by (rule retryLoop_never_returns) (simp_all add: taken_def calm_def old_pair_def)
  with g f show "generateUniqueSlug taken = None" by (simp add: generateUniqueSlug_def)
next
  show "generateUniqueSlug w = Some (Inr s, w') \<longrightarrow>
        fst (generateRandomString 5 w) = Inr s \<and> rand_calls w' = rand_calls w + 5"
  proof
    assume "generateUniqueSlug w = Some (Inr s, w')"
    then obtain k where "generateRandomString 5 w = (Inr s, w\<lparr>rand_calls := rand_calls w + 5\<rparr>)"
      and "w' = w\<lparr>rand_calls := rand_calls w + 5, store_calls := Suc (store_calls w + k)\<rparr>"
      by (rule generateUniqueSlug_returns)
    then show "fst (generateRandomString 5 w) = Inr s \<and> rand_calls w' = rand_calls w + 5"
      by simp
  qed
qed

text \<open>At a concrete input where a slug is returned: the healthy world with an empty
  collection.\<close>

theorem taken_candidate_is_never_replaced_witness:
  "generateUniqueSlug calm = Some (Inr ''aaaaa'', calm\<lparr>rand_calls := 5, store_calls := 1\<rparr>)
   \<and> fst (generateRandomString 5 calm) = Inr ''aaaaa''
   \<and> rand_calls (calm\<lparr>rand_calls := 5, store_calls := 1\<rparr>) = rand_calls calm + 5"
proof -
  have g: "generateRandomString 5 calm = (Inr ''aaaaa'', calm\<lparr>rand_calls := 5\<rparr>)"
    by (simp add: eval_nat_numeral rand_Int_def calm_def rune_at_def SLUG_ALPHABET_def)
  have f: "FindOne ''aaaaa'' (calm\<lparr>rand_calls := 5\<rparr>)
      = (Inl ErrNoDocuments, calm\<lparr>rand_calls := 5, store_calls := 1\<rparr>)"
    by (simp add: FindOne_def calm_def)
  have u: "generateUniqueSlug calm = Some (Inr ''aaaaa'', calm\<lparr>rand_calls := 5, store_calls := 1\<rparr>)"
    by (simp add: generateUniqueSlug_def g f retryLoop_error)
  from taken_candidate_is_never_replaced
    [of calm "''aaaaa''" "calm\<lparr>rand_calls := 5, store_calls := 1\<rparr>"] u
  show ?thesis by blast
qed

section \<open>Properties of the handlers\<close>

text \<open>What a successful \<open>persist\<close> has done.\<close>

lemma persist_returns:
  assumes "persist v w = Some (Inr r, w')"
  obtains s w1 where "generateUniqueSlug w = Some (Inr s, w1)"
    and "r = \<lparr>status = 200,
              payload = Json [(''result'', JResult (length (docs w))),
                              (''slugURLPair'', JPair \<lparr>Slug = s, Url = v, ExpireAt = clock w + five_days\<rparr>)],
              location = None\<rparr>"
    and "docs w' = docs w @ [\<lparr>Slug = s, Url = v, ExpireAt = clock w + five_days\<rparr>]"
    and "store_down w' = store_down w"
    and "\<exists>k. store_calls w' = store_calls w + k"
proof -
  from assms obtain g w1 where u: "generateUniqueSlug w = Some (g, w1)"
    by (cases "generateUniqueSlug w") (auto simp: persist_def)
  from assms u obtain s where g: "g = Inr s"
    by (cases g) (auto simp: persist_def)
  from u g obtain k where
    w1: "w1 = w\<lparr>rand_calls := rand_calls w + 5, store_calls := Suc (store_calls w + k)\<rparr>"
    using generateUniqueSlug_returns by blast
  let ?p = "\<lparr>Slug = s, Url = v, ExpireAt = clock w + five_days\<rparr>"
  from assms u g w1 have up: "\<not> store_down w (Suc (store_calls w + k))"
    "\<not> store_down w (Suc (Suc (store_calls w + k)))"
    by (auto simp: persist_def InsertOne_def createTTLIndex_def Let_def split: if_splits)
  with assms u g w1 have r: "r = \<lparr>status = 200,
              payload = Json [(''result'', JResult (length (docs w))), (''slugURLPair'', JPair ?p)],
              location = None\<rparr>"
    and w': "w' = w\<lparr>rand_calls := rand_calls w + 5, store_calls := Suc (Suc (Suc (store_calls w + k))),
        docs := docs w @ [?p], ttl_index := True\<rparr>"
    by (auto simp: persist_def InsertOne_def createTTLIndex_def Let_def)
  from w' have "\<exists>k. store_calls w' = store_calls w + k"
    by (auto intro: exI [of _ "Suc (Suc (Suc k))"])
  with that [OF _ r] u g w' show thesis by simp
qed

lemma persist_status:
  "persist v w = Some (Inr r, w') \<Longrightarrow> status r = 200"
  by (erule persist_returns) simp

text \<open>A slug that the retry loop lets through while the database answers every round
  trip is not in the collection.\<close>

lemma generateUniqueSlug_fresh:
  assumes u: "generateUniqueSlug w = Some (Inr s, w1)" and up: "\<forall>k. \<not> store_down w k"
  shows "s \<notin> Slug ` set (docs w)"
proof
  assume mem: "s \<in> Slug ` set (docs w)"
  let ?wa = "w\<lparr>rand_calls := rand_calls w + 5\<rparr>"
  from u obtain k where g: "generateRandomString 5 w = (Inr s, ?wa)"
    using generateUniqueSlug_returns by blast
  from mem up obtain d where f: "FindOne s ?wa = (Inr d, ?wa\<lparr>store_calls := Suc (store_calls ?wa)\<rparr>)"
    using FindOne_found [of s ?wa] by auto
  have "retryLoop None s (?wa\<lparr>store_calls := Suc (store_calls ?wa)\<rparr>) = None"
    using mem up by (intro retryLoop_never_returns) simp_all
  with u g f show False by (simp add: generateUniqueSlug_def)
qed

lemma getSlug_last:
  assumes "docs w = ds @ [p]" and "Slug p \<notin> Slug ` set ds" and "\<not> store_down w (store_calls w)"
  shows "getSlug (Slug p) w =
    (\<lparr>status = 302, payload = NoBody, location = Some (Url p)\<rparr>, w\<lparr>store_calls := Suc (store_calls w)\<rparr>)"
proof -
  from assms(2) have "\<forall>d\<in>set ds. Slug d \<noteq> Slug p"
    by (metis image_eqI)
  then have "find (\<lambda>d. Slug d = Slug p) ds = None"
    by (simp add: find_None_iff)
  then have "find (\<lambda>d. Slug d = Slug p) (ds @ [p]) = Some p"
    by (induction ds) (auto split: if_splits)
  with assms(1,3) show ?thesis
    by (simp add: getSlug_def FindOne_def Let_def)
qed

lemma getSlug_absent:
  assumes "slugParam \<notin> Slug ` set (docs w)"
  shows "getSlug slugParam w =
    (\<lparr>status = 404, payload = Text ''404: Error - Unable to find redirection URL.'', location = None\<rparr>,
     w\<lparr>store_calls := Suc (store_calls w)\<rparr>)"
proof (cases "store_down w (store_calls w)")
  case True
  from FindOne_down [OF this] show ?thesis by (simp add: getSlug_def)
next
  case False
  from FindOne_absent [OF assms this] show ?thesis by (simp add: getSlug_def)
qed

lemma createSlugURLPair_ok:
  assumes "createSlugURLPair parsed w = Some (Inr r, w')" and "status r = 200"
  obtains url v where "parsed = Inr url" and "assertProtocol (Value url) = Inr v"
    and "isValidURL v w" and "persist v w = Some (Inr r, w')"
  using assms
  by (auto simp: createSlugURLPair_def bad_request_def split: sum.splits if_splits)

lemma createSlugURLPair_main_ok:
  assumes "createSlugURLPair_main parsed w = Some (Inr r, w')" and "status r = 200"
  obtains bodyUrl u where "parsed = Inr bodyUrl" and "Parse (Value bodyUrl) = Inr u"
    and "persist (URL_String (if Scheme u = [] then u\<lparr>Scheme := ''http''\<rparr> else u)) w = Some (Inr r, w')"
  using assms
  by (auto simp: createSlugURLPair_main_def bad_request_def split: sum.splits if_splits)

lemma Join_empty_sep: "Join ips [] = concat ips"
  by (induction ips "[] :: string" rule: Join.induct) simp_all

text \<open>
  Claim C10. The limiter's key in \<^verbatim>\<open>main.go\<close> is the IP chain joined with the empty
  separator, that is its concatenation. The key is not injective: the chains
  \<open>["1.2.3.4", "56.7.8.9"]\<close> and \<open>["1.2.3.45", "6.7.8.9"]\<close> differ and have the same key,
  so two client identities share one quota.
\<close>

theorem limiter_key_not_injective:
  "KeyGenerator ips = concat ips
   \<and> KeyGenerator [''1.2.3.4'', ''56.7.8.9''] = KeyGenerator [''1.2.3.45'', ''6.7.8.9'']
   \<and> [''1.2.3.4'', ''56.7.8.9''] \<noteq> [''1.2.3.45'', ''6.7.8.9'']
   \<and> \<not> inj KeyGenerator"
proof -
  have eq: "KeyGenerator [''1.2.3.4'', ''56.7.8.9''] = KeyGenerator [''1.2.3.45'', ''6.7.8.9'']"
    by (simp add: KeyGenerator_def)
  have ne: "[''1.2.3.4'', ''56.7.8.9''] \<noteq> [''1.2.3.45'', ''6.7.8.9'']"
    by simp
  from eq ne have "\<not> inj KeyGenerator"
    by (blast dest: injD)
  with eq ne show ?thesis by (simp add: KeyGenerator_def Join_empty_sep)
qed

text \<open>
  Claim C8. A GET for a slug that no record of the collection carries (never created,
  or removed since) is answered with status 404 and the plain-text message, with no
  \<^verbatim>\<open>Location\<close> header; this holds whether the lookup reports "no documents" or fails.
\<close>

theorem unknown_slug_is_404:
  "slugParam \<notin> Slug ` set (docs w) \<longrightarrow>
     getSlug slugParam w =
       (\<lparr>status = 404, payload = Text ''404: Error - Unable to find redirection URL.'',
         location = None\<rparr>,
        w\<lparr>store_calls := Suc (store_calls w)\<rparr>)"
  using getSlug_absent by blast

text \<open>At a concrete input: the slug \<open>zzzzz\<close> in a collection that holds only \<open>aaaaa\<close>.\<close>

theorem unknown_slug_is_404_witness:
  "''zzzzz'' \<notin> Slug ` set (docs taken)
   \<and> getSlug ''zzzzz'' taken =
       (\<lparr>status = 404, payload = Text ''404: Error - Unable to find redirection URL.'',
         location = None\<rparr>,
        taken\<lparr>store_calls := 1\<rparr>)"
proof -
  have a: "''zzzzz'' \<notin> Slug ` set (docs taken)"
    by (simp add: taken_def calm_def old_pair_def)
  have c: "store_calls taken = 0"
    by (simp add: taken_def calm_def)
  from unknown_slug_is_404 [of "''zzzzz''" taken] a show ?thesis
    by (simp add: c)
qed

lemma removeEmptyPort_empty: "removeEmptyPort [] = []"
  by (simp add: removeEmptyPort_def hasPort_def LastIndex_def)

lemma http_Get_Some:
  assumes "http_Get v w = Some code"
  obtains u where "Parse v = Inr u" and "Scheme u = ''http'' \<or> Scheme u = ''https''"
    and "Host u \<noteq> []" and "network w v = Some code"
proof -
  from assms obtain u where P: "Parse v = Inr u"
    by (cases "Parse v") (auto simp: http_Get_def)
  from assms P have s: "Scheme u = ''http'' \<or> Scheme u = ''https''"
    and h: "removeEmptyPort (Host u) \<noteq> []" and n: "network w v = Some code"
    by (auto simp: http_Get_def split: if_splits)
  from h have "Host u \<noteq> []"
    using removeEmptyPort_empty by auto
  from that [OF P s this n] show thesis .
qed

text \<open>A URL without a host is never fetched, whatever the network does.\<close>

lemma isValidURL_host:
  assumes "isValidURL v w"
  obtains u where "Parse v = Inr u" and "Host u \<noteq> []"
proof -
  from assms obtain code where "http_Get v w = Some code"
    by (cases "http_Get v w") (auto simp: isValidURL_def)
  then show thesis by (rule http_Get_Some) (rule that)
qed

lemma empty_url_normalised: "assertProtocol [] = Inr ''https:''"
  by code_simp

lemma empty_url_not_fetched: "\<not> isValidURL ''https:'' w"
proof
  assume "isValidURL ''https:'' w"
  then obtain u where P: "Parse ''https:'' = Inr u" and h: "Host u \<noteq> []"
    by (rule isValidURL_host)
  have "case Parse ''https:'' of Inl e \<Rightarrow> False | Inr u \<Rightarrow> Host u = []"
    by code_simp
  with P h show False by simp
qed

lemma empty_url_main: "Parse [] = Inr new_URL" "URL_String (new_URL\<lparr>Scheme := ''http''\<rparr>) = ''http:''"
  by code_simp+

text \<open>
  Claim C5, as the code has it. When \<^verbatim>\<open>BodyParser\<close> returns an error, both versions
  of the handler answer 400 with the message \<^verbatim>\<open>Body must contain a `url` field.\<close> and
  the parser's error. In \<^verbatim>\<open>part_000\<close> a URL that does not parse or cannot be fetched
  is answered 400 with the message \<^verbatim>\<open>Invalid URL\<close>, and so is, whatever the network
  does, a body without a \<^verbatim>\<open>url\<close> member. In \<^verbatim>\<open>main.go\<close> (lines 110-154) a URL that
  does not parse is answered 400 with \<^verbatim>\<open>Invalid URL.\<close> and the error of
  \<^verbatim>\<open>url.Parse\<close>. Every 400 answer of either version leaves the world as it was.
  But the handler of \<^verbatim>\<open>main.go\<close> does not refuse a body without a \<^verbatim>\<open>url\<close> member:
  it goes on to persist the URL \<^verbatim>\<open>http:\<close>, and once that is stored it answers 200.
\<close>

theorem rejected_body_is_400_nothing_stored:
  "createSlugURLPair (Inl err) w =
     Some (Inr \<lparr>status = 400,
                payload = Json [(''err'', JString err),
                                (''message'', JString ''Body must contain a `url` field.'')],
                location = None\<rparr>, w)
   \<and> createSlugURLPair_main (Inl err) w =
     Some (Inr \<lparr>status = 400,
                payload = Json [(''err'', JString err),
                                (''message'', JString ''Body must contain a `url` field.'')],
                location = None\<rparr>, w)
   \<and> ((\<forall>v. assertProtocol (Value url) = Inr v \<longrightarrow> \<not> isValidURL v w) \<longrightarrow>
        createSlugURLPair (Inr url) w =
          Some (Inr \<lparr>status = 400, payload = Json [(''message'', JString ''Invalid URL'')],
                     location = None\<rparr>, w))
   \<and> createSlugURLPair (Inr \<lparr>Value = []\<rparr>) w =
       Some (Inr \<lparr>status = 400, payload = Json [(''message'', JString ''Invalid URL'')],
                  location = None\<rparr>, w)
   \<and> (Parse (Value bodyUrl) = Inl e \<longrightarrow>
        createSlugURLPair_main (Inr bodyUrl) w =
          Some (Inr \<lparr>status = 400,
                     payload = Json [(''err'', JError e), (''message'', JString ''Invalid URL.'')],
                     location = None\<rparr>, w))
   \<and> (createSlugURLPair parsed w = Some (Inr r, w') \<and> status r = 400 \<longrightarrow> w' = w)
   \<and> (createSlugURLPair_main parsed w = Some (Inr r, w') \<and> status r = 400 \<longrightarrow> w' = w)
   \<and> createSlugURLPair_main (Inr \<lparr>Value = []\<rparr>) w = persist ''http:'' w
   \<and> (persist ''http:'' w = Some (Inr r2, w2) \<longrightarrow>
        status r2 = 200 \<and> (\<exists>p. docs w2 = docs w @ [p] \<and> Url p = ''http:''))"
proof (intro conjI impI)
  show "createSlugURLPair (Inl err) w =
     Some (Inr \<lparr>status = 400,
                payload = Json [(''err'', JString err),
                                (''message'', JString ''Body must contain a `url` field.'')],
                location = None\<rparr>, w)"
    by (simp add: createSlugURLPair_def bad_request_def)
next
  show "createSlugURLPair_main (Inl err) w =
     Some (Inr \<lparr>status = 400,
                payload = Json [(''err'', JString err),
                                (''message'', JString ''Body must contain a `url` field.'')],
                location = None\<rparr>, w)"
    by (simp add: createSlugURLPair_main_def bad_request_def)
next
  assume "\<forall>v. assertProtocol (Value url) = Inr v \<longrightarrow> \<not> isValidURL v w"
  then show "createSlugURLPair (Inr url) w =
      Some (Inr \<lparr>status = 400, payload = Json [(''message'', JString ''Invalid URL'')],
                 location = None\<rparr>, w)"
    by (cases "assertProtocol (Value url)") (simp_all add: createSlugURLPair_def bad_request_def)
next
  show "createSlugURLPair (Inr \<lparr>Value = []\<rparr>) w =
      Some (Inr \<lparr>status = 400, payload = Json [(''message'', JString ''Invalid URL'')],
                 location = None\<rparr>, w)"
    by (simp add: createSlugURLPair_def empty_url_normalised empty_url_not_fetched bad_request_def)
next
  assume "Parse (Value bodyUrl) = Inl e"
  then show "createSlugURLPair_main (Inr bodyUrl) w =
      Some (Inr \<lparr>status = 400,
                 payload = Json [(''err'', JError e), (''message'', JString ''Invalid URL.'')],
                 location = None\<rparr>, w)"
    by (simp add: createSlugURLPair_main_def bad_request_def)
next
  assume "createSlugURLPair parsed w = Some (Inr r, w') \<and> status r = 400"
  then show "w' = w"
    by (auto simp: createSlugURLPair_def bad_request_def
        split: sum.splits if_splits dest: persist_status)
next
  assume "createSlugURLPair_main parsed w = Some (Inr r, w') \<and> status r = 400"
  then show "w' = w"
    by (auto simp: createSlugURLPair_main_def bad_request_def
        split: sum.splits if_splits dest: persist_status)
next
  have "Scheme new_URL = []"
    by (simp add: new_URL_def)
  then show "createSlugURLPair_main (Inr \<lparr>Value = []\<rparr>) w = persist ''http:'' w"
    by (simp add: createSlugURLPair_main_def empty_url_main)
next
  assume p: "persist ''http:'' w = Some (Inr r2, w2)"
  then show "status r2 = 200" by (rule persist_status)
  from p obtain s where "docs w2 = docs w @ [\<lparr>Slug = s, Url = ''http:'', ExpireAt = clock w + five_days\<rparr>]"
    by (rule persist_returns)
  then show "\<exists>p. docs w2 = docs w @ [p] \<and> Url p = ''http:''"
    by (intro exI [of _ "\<lparr>Slug = s, Url = ''http:'', ExpireAt = clock w + five_days\<rparr>"]) simp
qed

text \<open>At concrete inputs, while no URL can be fetched and the database is healthy: a
  body that is not JSON, the URL \<^verbatim>\<open>example.com\<close>, a URL that does not parse, and a
  body without a \<^verbatim>\<open>url\<close> member.\<close>

theorem rejected_body_is_400_nothing_stored_witness:
  "createSlugURLPair (Inl ''unexpected end of JSON input'') offline =
     Some (Inr \<lparr>status = 400,
                payload = Json [(''err'', JString ''unexpected end of JSON input''),
                                (''message'', JString ''Body must contain a `url` field.'')],
                location = None\<rparr>, offline)
   \<and> assertProtocol ''example.com'' = Inr ''https://example.com''
   \<and> \<not> isValidURL ''https://example.com'' offline
   \<and> createSlugURLPair (Inr \<lparr>Value = ''example.com''\<rparr>) offline =
     Some (Inr \<lparr>status = 400, payload = Json [(''message'', JString ''Invalid URL'')],
                location = None\<rparr>, offline)
   \<and> createSlugURLPair (Inr \<lparr>Value = []\<rparr>) offline =
     Some (Inr \<lparr>status = 400, payload = Json [(''message'', JString ''Invalid URL'')],
                location = None\<rparr>, offline)
   \<and> createSlugURLPair_main (Inr \<lparr>Value = ''http://a b''\<rparr>) offline =
     Some (Inr \<lparr>status = 400,
                payload = Json [(''err'', JError (url_Error ''parse'' ''http://a b'' (InvalidHostError '' ''))),
                                (''message'', JString ''Invalid URL.'')],
                location = None\<rparr>, offline)
   \<and> (\<exists>r2 w2 p. createSlugURLPair_main (Inr \<lparr>Value = []\<rparr>) offline = Some (Inr r2, w2)
        \<and> status r2 = 200 \<and> docs w2 = [p] \<and> Url p = ''http:'')"
proof -
  have n: "assertProtocol ''example.com'' = Inr ''https://example.com''"
    by code_simp
  have v: "\<not> isValidURL ''https://example.com'' offline"
    by code_simp
  then have a: "\<forall>v. assertProtocol (Value \<lparr>Value = ''example.com''\<rparr>) = Inr v \<longrightarrow> \<not> isValidURL v offline"
    by (simp add: n)
  have P: "Parse (Value \<lparr>Value = ''http://a b''\<rparr>)
      = Inl (url_Error ''parse'' ''http://a b'' (InvalidHostError '' ''))"
    by code_simp
  have "case persist ''http:'' offline of Some (Inr r2, w2) \<Rightarrow> True | _ \<Rightarrow> False"
    by code_simp
  then obtain r2 w2 where p: "persist ''http:'' offline = Some (Inr r2, w2)"
    by (auto split: option.splits sum.splits prod.splits)
  have e: "docs offline = []"
    by (simp add: offline_def calm_def)
  let ?r = "\<lparr>status = 400,
      payload = Json [(''err'', JString ''unexpected end of JSON input''),
                      (''message'', JString ''Body must contain a `url` field.'')],
      location = None\<rparr>"
  note inst = rejected_body_is_400_nothing_stored
    [of "''unexpected end of JSON input''" offline "\<lparr>Value = ''example.com''\<rparr>"
        "\<lparr>Value = ''http://a b''\<rparr>" "url_Error ''parse'' ''http://a b'' (InvalidHostError '' '')"
        "Inl ''unexpected end of JSON input''" ?r offline r2 w2]
  from inst a P p e n v show ?thesis
    by simp
qed

text \<open>
  Claim C4, as the code has it. A creation request of \<^verbatim>\<open>part_000\<close> that is answered
  200 has appended one record, whose URL is the normalised URL of the request, and
  has returned that record. A GET on its slug right after is answered 302 to exactly
  that URL if no older record carries the slug and the lookup of the GET does not
  fail; both are the case when the database answers every round trip.
\<close>

theorem redirect_after_create:
  "createSlugURLPair parsed w = Some (Inr r, w') \<and> status r = 200 \<longrightarrow>
     (\<exists>url p n. parsed = Inr url \<and> assertProtocol (Value url) = Inr (Url p)
        \<and> payload r = Json [(''result'', JResult n), (''slugURLPair'', JPair p)]
        \<and> docs w' = docs w @ [p]
        \<and> (Slug p \<notin> Slug ` set (docs w) \<and> \<not> store_down w' (store_calls w') \<longrightarrow>
             getSlug (Slug p) w' =
               (\<lparr>status = 302, payload = NoBody, location = Some (Url p)\<rparr>,
                w'\<lparr>store_calls := Suc (store_calls w')\<rparr>))
        \<and> ((\<forall>k. \<not> store_down w k) \<longrightarrow>
             getSlug (Slug p) w' =
               (\<lparr>status = 302, payload = NoBody, location = Some (Url p)\<rparr>,
                w'\<lparr>store_calls := Suc (store_calls w')\<rparr>)))"
proof
  assume a: "createSlugURLPair parsed w = Some (Inr r, w') \<and> status r = 200"
  then obtain url v where parsed: "parsed = Inr url" and v: "assertProtocol (Value url) = Inr v"
    and p: "persist v w = Some (Inr r, w')"
    by (blast elim: createSlugURLPair_ok)
  from p obtain s w1 where u: "generateUniqueSlug w = Some (Inr s, w1)"
    and r: "r = \<lparr>status = 200,
              payload = Json [(''result'', JResult (length (docs w))),
                              (''slugURLPair'', JPair \<lparr>Slug = s, Url = v, ExpireAt = clock w + five_days\<rparr>)],
              location = None\<rparr>"
    and d: "docs w' = docs w @ [\<lparr>Slug = s, Url = v, ExpireAt = clock w + five_days\<rparr>]"
    and sd: "store_down w' = store_down w"
    by (rule persist_returns)
  let ?p = "\<lparr>Slug = s, Url = v, ExpireAt = clock w + five_days\<rparr>"
  let ?redirect = "getSlug (Slug ?p) w' =
      (\<lparr>status = 302, payload = NoBody, location = Some (Url ?p)\<rparr>,
       w'\<lparr>store_calls := Suc (store_calls w')\<rparr>)"
  have one: "Slug ?p \<notin> Slug ` set (docs w) \<and> \<not> store_down w' (store_calls w') \<longrightarrow> ?redirect"
    using getSlug_last [of w' "docs w" ?p] d by blast
  have two: "(\<forall>k. \<not> store_down w k) \<longrightarrow> ?redirect"
  proof
    assume up: "\<forall>k. \<not> store_down w k"
    from generateUniqueSlug_fresh [OF u up] have "Slug ?p \<notin> Slug ` set (docs w)" by simp
    moreover from up sd have "\<not> store_down w' (store_calls w')" by simp
    ultimately show ?redirect using one by blast
  qed
  from parsed v r d one two
  show "\<exists>url p n. parsed = Inr url \<and> assertProtocol (Value url) = Inr (Url p)
        \<and> payload r = Json [(''result'', JResult n), (''slugURLPair'', JPair p)]
        \<and> docs w' = docs w @ [p]
        \<and> (Slug p \<notin> Slug ` set (docs w) \<and> \<not> store_down w' (store_calls w') \<longrightarrow>
             getSlug (Slug p) w' =
               (\<lparr>status = 302, payload = NoBody, location = Some (Url p)\<rparr>,
                w'\<lparr>store_calls := Suc (store_calls w')\<rparr>))
        \<and> ((\<forall>k. \<not> store_down w k) \<longrightarrow>
             getSlug (Slug p) w' =
               (\<lparr>status = 302, payload = NoBody, location = Some (Url p)\<rparr>,
                w'\<lparr>store_calls := Suc (store_calls w')\<rparr>))"
    by (intro exI [of _ url] exI [of _ ?p] exI [of _ "length (docs w)"]) simp
qed

text \<open>At a concrete input: \<^verbatim>\<open>example.com\<close> in a healthy world with an empty collection.\<close>

theorem redirect_after_create_witness:
  "\<exists>r w' p. createSlugURLPair (Inr \<lparr>Value = ''example.com''\<rparr>) calm = Some (Inr r, w')
     \<and> status r = 200 \<and> (\<forall>k. \<not> store_down calm k)
     \<and> docs w' = [p] \<and> Url p = ''https://example.com''
     \<and> fst (getSlug (Slug p) w')
          = \<lparr>status = 302, payload = NoBody, location = Some ''https://example.com''\<rparr>"
proof -
  have "case createSlugURLPair (Inr \<lparr>Value = ''example.com''\<rparr>) calm of
      Some (Inr r, w') \<Rightarrow> status r = 200 | _ \<Rightarrow> False"
    by code_simp
  then obtain r w' where c: "createSlugURLPair (Inr \<lparr>Value = ''example.com''\<rparr>) calm = Some (Inr r, w')"
    and s: "status r = 200"
    by (auto split: option.splits sum.splits prod.splits)
  have n: "assertProtocol ''example.com'' = Inr ''https://example.com''"
    by code_simp
  have up: "\<forall>k. \<not> store_down calm k" and e: "docs calm = []"
    by (simp_all add: calm_def)
  from redirect_after_create [of "Inr \<lparr>Value = ''example.com''\<rparr>" calm r w'] c s up n e
  obtain p where "docs w' = [p]" "Url p = ''https://example.com''"
    "getSlug (Slug p) w' =
       (\<lparr>status = 302, payload = NoBody, location = Some (Url p)\<rparr>,
        w'\<lparr>store_calls := Suc (store_calls w')\<rparr>)"
    by auto
  with c s up show ?thesis by auto
qed

text \<open>Against claim C4 as stated. First: the collection holds \<open>aaaaa\<close>, the uniqueness
  lookup fails and is taken as "free", the creation is answered 200, and the GET is
  redirected to the older record's URL. Second: the creation is answered 200 and the
  lookup of the GET fails, which is answered 404.\<close>

theorem redirect_after_create_counterexample:
  "(case createSlugURLPair (Inr \<lparr>Value = ''https://new.example''\<rparr>) store_failing of
      Some (Inr r, w') \<Rightarrow>
        status r = 200
        \<and> payload r = Json [(''result'', JResult 1),
             (''slugURLPair'', JPair \<lparr>Slug = ''aaaaa'', Url = ''https://new.example'', ExpireAt = five_days\<rparr>)]
        \<and> fst (getSlug ''aaaaa'' w')
            = \<lparr>status = 302, payload = NoBody, location = Some ''https://old.example''\<rparr>
    | _ \<Rightarrow> False)
   \<and> (case createSlugURLPair (Inr \<lparr>Value = ''https://new.example''\<rparr>) get_fails of
      Some (Inr r, w') \<Rightarrow>
        status r = 200
        \<and> payload r = Json [(''result'', JResult 0),
             (''slugURLPair'', JPair \<lparr>Slug = ''aaaaa'', Url = ''https://new.example'', ExpireAt = five_days\<rparr>)]
        \<and> fst (getSlug ''aaaaa'' w')
            = \<lparr>status = 404, payload = Text ''404: Error - Unable to find redirection URL.'',
               location = None\<rparr>
    | _ \<Rightarrow> False)"
  by code_simp

text \<open>Against claim C5 as stated: the handler of \<^verbatim>\<open>main.go\<close> (lines 110-154) answers a
  body without a \<^verbatim>\<open>url\<close> member with 200 and stores the mapping to \<^verbatim>\<open>http:\<close>.\<close>

theorem missing_url_counterexample:
  "(case createSlugURLPair_main (Inr \<lparr>Value = []\<rparr>) calm of
      Some (Inr r, w') \<Rightarrow>
        status r = 200
        \<and> docs w' = [\<lparr>Slug = ''aaaaa'', Url = ''http:'', ExpireAt = five_days\<rparr>]
    | _ \<Rightarrow> False)"
  by code_simp

section \<open>Properties of net/url\<close>

lemma HasPrefix_append: "HasPrefix (p @ s) p"
  by (simp add: HasPrefix_def)






lemma getScheme_http: "getScheme (''http:'' @ rest) = Inr (''http'', rest)"
  by (simp add: getScheme_def less_eq_char_def)

lemma getScheme_https: "getScheme (''https:'' @ rest) = Inr (''https'', rest)"
  by (simp add: getScheme_def less_eq_char_def)

lemma ToLower_http: "ToLower ''http'' = ''http''" "ToLower ''https'' = ''https''"
  by (simp_all add: ToLower_def less_eq_char_def)



















lemma setPath_Inr:
  "setPath u p = Inr u' \<Longrightarrow>
     Scheme u' = Scheme u \<and> Opaque u' = Opaque u \<and> Host u' = Host u \<and> User u' = User u
     \<and> OmitHost u' = OmitHost u"
  by (auto simp: setPath_def split: sum.splits)

lemma setFragment_Inr:
  "setFragment u f = Inr u' \<Longrightarrow>
     Scheme u' = Scheme u \<and> Opaque u' = Opaque u \<and> Host u' = Host u \<and> User u' = User u
     \<and> OmitHost u' = OmitHost u \<and> Path u' = Path u \<and> RawPath u' = RawPath u"
  by (auto simp: setFragment_def split: sum.splits)

lemma parse_authority_Inr:
  "parse_authority url a = Inr u \<Longrightarrow>
     Scheme u = Scheme url \<and> Opaque u = Opaque url \<and> OmitHost u = OmitHost url"
  by (auto simp: parse_authority_def Let_def split: sum.splits prod.splits dest!: setPath_Inr)

lemma parse_hier_Inr:
  assumes "parse_hier url rest v = Inr u"
    and "Opaque url = []" and "Host url = []" and "User url = None" and "\<not> OmitHost url"
  shows "Scheme u = Scheme url"
    and "Opaque u \<noteq> [] \<longrightarrow> Host u = [] \<and> User u = None"
    and "Scheme url = [] \<longrightarrow> Opaque u = [] \<and> \<not> OmitHost u"
  using assms unfolding parse_hier_def
  by (auto split: if_splits dest!: setPath_Inr parse_authority_Inr)

lemma parse_rest_Inr:
  assumes "parse_rest sch rest v = Inr u"
  shows "Scheme u = sch"
    and "Opaque u \<noteq> [] \<longrightarrow> Host u = [] \<and> User u = None"
    and "sch = [] \<longrightarrow> Opaque u = [] \<and> \<not> OmitHost u"
proof -
  from assms obtain url rest' where h: "parse_hier url rest' v = Inr u"
    and url: "Scheme url = sch" "Opaque url = []" "Host url = []" "User url = None" "\<not> OmitHost url"
    unfolding parse_rest_def
    by (cases "HasSuffix rest ''?'' \<and> count_list rest (CHR ''?'') = 1"; cases "Cut rest (CHR ''?'')")
       (auto simp: new_URL_def)
  from parse_hier_Inr [OF h url(2-5)] url(1)
  show "Scheme u = sch"
    and "Opaque u \<noteq> [] \<longrightarrow> Host u = [] \<and> User u = None"
    and "sch = [] \<longrightarrow> Opaque u = [] \<and> \<not> OmitHost u"
    by simp_all
qed

lemma parse_Inr:
  assumes "parse x v = Inr u"
  shows "Opaque u \<noteq> [] \<longrightarrow> Host u = [] \<and> User u = None"
    and "Scheme u = [] \<longrightarrow> Opaque u = [] \<and> \<not> OmitHost u"
proof -
  have "u = new_URL\<lparr>Path := ''*''\<rparr> \<or> (\<exists>sch rest. parse_rest (ToLower sch) rest v = Inr u)"
  proof (cases "stringContainsCTLByte x \<or> (x = [] \<and> v)")
    case True
    with assms show ?thesis
      unfolding parse_def by (simp split: if_splits)
  next
    case False
    show ?thesis
    proof (cases "x = ''*''")
      case True
      with assms False have "u = new_URL\<lparr>Path := ''*''\<rparr>"
        unfolding parse_def by (simp split: if_splits)
      then show ?thesis ..
    next
      case star: False
      show ?thesis
      proof (cases "getScheme x")
        case (Inl e)
        with assms False star show ?thesis
          unfolding parse_def by (simp split: if_splits)
      next
        case (Inr sr)
        obtain sch rest where "sr = (sch, rest)" by (cases sr)
        with assms False star Inr have "parse_rest (ToLower sch) rest v = Inr u"
          unfolding parse_def by (simp split: if_splits)
        then show ?thesis by blast
      qed
    qed
  qed
  then consider "u = new_URL\<lparr>Path := ''*''\<rparr>"
    | sch rest where "parse_rest (ToLower sch) rest v = Inr u"
    by blast
  then have "(Opaque u \<noteq> [] \<longrightarrow> Host u = [] \<and> User u = None)
      \<and> (Scheme u = [] \<longrightarrow> Opaque u = [] \<and> \<not> OmitHost u)"
  proof cases
    case 1
    then show ?thesis by (simp add: new_URL_def)
  next
    case 2
    from parse_rest_Inr [OF this] show ?thesis by simp
  qed
  then show "Opaque u \<noteq> [] \<longrightarrow> Host u = [] \<and> User u = None"
    and "Scheme u = [] \<longrightarrow> Opaque u = [] \<and> \<not> OmitHost u"
    by simp_all
qed

lemma Parse_Inr:
  assumes "Parse x = Inr u"
  shows "Opaque u \<noteq> [] \<longrightarrow> Host u = [] \<and> User u = None"
    and "Scheme u = [] \<longrightarrow> Opaque u = [] \<and> \<not> OmitHost u"
proof -
  obtain b f fl where cut: "Cut x (CHR ''#'') = (b, f, fl)"
    by (cases "Cut x (CHR ''#'')") auto
  from assms cut obtain u0 where p: "parse b False = Inr u0"
    and u: "u = u0 \<or> setFragment u0 f = Inr u"
    unfolding Parse_def by (auto split: sum.splits if_splits)
  from u have same: "Scheme u = Scheme u0 \<and> Opaque u = Opaque u0 \<and> Host u = Host u0
      \<and> User u = User u0 \<and> OmitHost u = OmitHost u0"
    by (auto dest: setFragment_Inr)
  from parse_Inr [OF p] same
  show "Opaque u \<noteq> [] \<longrightarrow> Host u = [] \<and> User u = None"
    and "Scheme u = [] \<longrightarrow> Opaque u = [] \<and> \<not> OmitHost u"
    by simp_all
qed

lemma Cut_append:
  "c \<notin> set a \<Longrightarrow> Cut (a @ t) c = (case Cut t c of (before, after, found) \<Rightarrow> (a @ before, after, found))"
  by (induction a) (auto split: prod.splits)


text \<open>Every step of \<^verbatim>\<open>String()\<close> only appends to the buffer.\<close>

lemma HasPrefix_iff: "HasPrefix s p \<longleftrightarrow> (\<exists>t. s = p @ t)"
  unfolding HasPrefix_def by (metis append_eq_conv_conj append_take_drop_id)

lemma HasPrefix_extend: "HasPrefix buf p \<Longrightarrow> HasPrefix (buf @ t) p"
  by (auto simp: HasPrefix_iff)

lemma write_authority_appends: "\<exists>r. write_authority u buf = buf @ r"
  by (simp add: write_authority_def)

lemma write_path_appends: "\<exists>r. write_path u buf = buf @ r"
  by (simp add: write_path_def Let_def)

lemma write_query_appends: "\<exists>r. write_query u buf = buf @ r"
  by (simp add: write_query_def)

lemma write_fragment_appends: "\<exists>r. write_fragment u buf = buf @ r"
  by (simp add: write_fragment_def)

lemma write_authority_prefix: "HasPrefix buf p \<Longrightarrow> HasPrefix (write_authority u buf) p"
  using write_authority_appends [of u buf] by (auto simp: HasPrefix_extend)

lemma write_path_prefix: "HasPrefix buf p \<Longrightarrow> HasPrefix (write_path u buf) p"
  using write_path_appends [of u buf] by (auto simp: HasPrefix_extend)

lemma write_query_prefix: "HasPrefix buf p \<Longrightarrow> HasPrefix (write_query u buf) p"
  using write_query_appends [of u buf] by (auto simp: HasPrefix_extend)

lemma write_fragment_prefix: "HasPrefix buf p \<Longrightarrow> HasPrefix (write_fragment u buf) p"
  using write_fragment_appends [of u buf] by (auto simp: HasPrefix_extend)

lemma URL_String_scheme:
  assumes "Scheme u \<noteq> []"
  shows "HasPrefix (URL_String u) (Scheme u @ '':'')"
proof -
  let ?buf = "Scheme u @ '':''"
  have b: "HasPrefix ?buf ?buf" by (simp add: HasPrefix_def)
  have "HasPrefix (if Opaque u \<noteq> [] then ?buf @ Opaque u
      else write_path u (write_authority u ?buf)) ?buf"
    using HasPrefix_extend [OF b, of "Opaque u"]
      write_path_prefix [OF write_authority_prefix [OF b], of u u]
    by simp
  then have "HasPrefix (write_fragment u (write_query u (if Opaque u \<noteq> [] then ?buf @ Opaque u
      else write_path u (write_authority u ?buf)))) ?buf"
    by (intro write_fragment_prefix write_query_prefix)
  then show ?thesis
    unfolding URL_String_def Let_def by (simp only: assms if_True simp_thms)
qed

lemma URL_String_slashes:
  assumes "Scheme u \<noteq> []" and "Opaque u = []"
    and "Host u \<noteq> [] \<or> User u \<noteq> None \<or> (Path u \<noteq> [] \<and> \<not> OmitHost u)"
  shows "HasPrefix (URL_String u) (Scheme u @ ''://'')"
proof -
  have "\<exists>r. write_authority u (Scheme u @ '':'') = (Scheme u @ ''://'') @ r"
    using assms by (auto simp: write_authority_def)
  then have "HasPrefix (write_authority u (Scheme u @ '':'')) (Scheme u @ ''://'')"
    by (simp only: HasPrefix_iff)
  then have "HasPrefix (write_fragment u (write_query u
      (write_path u (write_authority u (Scheme u @ '':''))))) (Scheme u @ ''://'')"
    by (intro write_fragment_prefix write_query_prefix write_path_prefix)
  then show ?thesis
    unfolding URL_String_def Let_def by (simp only: assms(1,2) if_True if_False simp_thms)
qed








section \<open>Normalisation and the stored URL\<close>


lemma assertProtocol_Parse:
  assumes "assertProtocol x = Inr v"
  obtains u where "Parse x = Inr u"
    and "v = URL_String (if Scheme u \<noteq> ''http'' \<and> Scheme u \<noteq> ''https'' then u\<lparr>Scheme := ''https''\<rparr> else u)"
  using assms by (cases "Parse x") (auto simp: assertProtocol_def)






lemma Cut_prefix: "Cut s c = (x, y, f) \<Longrightarrow> \<exists>z. s = x @ z"
  by (induction s arbitrary: x y f) (auto split: if_splits prod.splits)

lemma HasPrefix_of_prefix: "HasPrefix x p \<Longrightarrow> HasPrefix (x @ z) p"
  by (auto simp: HasPrefix_iff)

lemma HasPrefix_take: "HasPrefix (take n s) p \<Longrightarrow> HasPrefix s p"
  by (metis HasPrefix_of_prefix append_take_drop_id)

lemma parse_hier_host:
  assumes "parse_hier url rest v = Inr u" and "Host url = []" and "Host u \<noteq> []"
  shows "HasPrefix rest ''//''"
  using assms unfolding parse_hier_def
  by (auto split: if_splits dest!: setPath_Inr)

lemma parse_rest_host:
  assumes "parse_rest sch rest v = Inr u" and "Host u \<noteq> []"
  shows "HasPrefix rest ''//''"
proof (cases "HasSuffix rest ''?'' \<and> count_list rest (CHR ''?'') = 1")
  case True
  with assms(1) have "parse_hier (new_URL\<lparr>Scheme := sch, ForceQuery := True\<rparr>)
      (take (length rest - 1) rest) v = Inr u"
    by (simp add: parse_rest_def)
  from parse_hier_host [OF this _ assms(2)] have "HasPrefix (take (length rest - 1) rest) ''//''"
    by (simp add: new_URL_def)
  then show ?thesis by (rule HasPrefix_take)
next
  case False
  obtain x y f where cut: "Cut rest (CHR ''?'') = (x, y, f)"
    by (cases "Cut rest (CHR ''?'')") auto
  from assms(1) have "parse_hier (new_URL\<lparr>Scheme := sch, RawQuery := y\<rparr>) x v = Inr u"
    unfolding parse_rest_def by (simp only: False if_False cut prod.case)
  from parse_hier_host [OF this _ assms(2)] have "HasPrefix x ''//''"
    by (simp add: new_URL_def)
  with Cut_prefix [OF cut] show ?thesis
    by (auto simp: HasPrefix_of_prefix)
qed

text \<open>A string that begins with \<^verbatim>\<open>http:\<close> or \<^verbatim>\<open>https:\<close> and parses to a URL with a
  host has \<^verbatim>\<open>//\<close> after the colon.\<close>

lemma Parse_host_slashes:
  assumes "Parse (sch @ '':'' @ t) = Inr u" and sch: "sch = ''http'' \<or> sch = ''https''"
    and host: "Host u \<noteq> []"
  shows "HasPrefix t ''//''"
proof -
  obtain b f fl where cut: "Cut t (CHR ''#'') = (b, f, fl)"
    by (cases "Cut t (CHR ''#'')") auto
  have "CHR ''#'' \<notin> set (sch @ '':'')"
    using sch by auto
  from Cut_append [OF this, of t] cut
  have cutx: "Cut (sch @ '':'' @ t) (CHR ''#'') = (sch @ '':'' @ b, f, fl)"
    by simp
  from assms(1) cutx obtain u0 where p: "parse (sch @ '':'' @ b) False = Inr u0"
    and u: "u = u0 \<or> setFragment u0 f = Inr u"
    unfolding Parse_def by (auto split: sum.splits if_splits)
  have gs: "getScheme (sch @ '':'' @ b) = Inr (sch, b)"
    using sch getScheme_http [of b] getScheme_https [of b] by auto
  have star: "sch @ '':'' @ b \<noteq> ''*''"
    using sch by auto
  have low: "ToLower sch = sch"
    using sch ToLower_http by auto
  from p have r: "parse_rest sch b False = Inr u0"
    unfolding parse_def
    by (simp only: gs low star if_False sum.simps prod.case simp_thms split: if_splits)
  from u host have "Host u0 \<noteq> []"
    by (auto dest: setFragment_Inr)
  from parse_rest_host [OF r this] Cut_prefix [OF cut] show ?thesis
    by (auto simp: HasPrefix_of_prefix)
qed

lemma HasPrefix_scheme_slashes:
  assumes "HasPrefix v (sch @ '':'')" and "Parse v = Inr u" and "Host u \<noteq> []"
    and "sch = ''http'' \<or> sch = ''https''"
  shows "HasPrefix v (sch @ ''://'')"
proof -
  from assms(1) obtain t where v: "v = sch @ '':'' @ t"
    by (auto simp: HasPrefix_iff)
  from Parse_host_slashes [OF assms(2) [unfolded v] assms(4) assms(3)] obtain t' where "t = ''//'' @ t'"
    by (auto simp: HasPrefix_iff)
  with v show ?thesis
    by (auto simp: HasPrefix_iff)
qed

text \<open>
  Claim C2, as the code has it. A creation request of \<^verbatim>\<open>part_000\<close> that is answered
  200 has stored the normalised URL of the request, and that begins with \<^verbatim>\<open>http://\<close>
  or \<^verbatim>\<open>https://\<close>: normalisation leaves it with one of the two schemes, and the
  probe has fetched it, which \<^verbatim>\<open>http.Get\<close> only does for a URL with a host. The
  handler of \<^verbatim>\<open>main.go\<close> (lines 110-154) replaces only an empty scheme and probes
  nothing: the stored URL begins with the scheme of the request, or with \<^verbatim>\<open>http\<close> if
  it had none, and a colon; it begins with \<^verbatim>\<open>http://\<close> or \<^verbatim>\<open>https://\<close> when the
  scheme of the request is \<^verbatim>\<open>http\<close>, \<^verbatim>\<open>https\<close> or empty and the URL has a host, or no
  scheme and a path (as \<^verbatim>\<open>example.com\<close>).
\<close>

theorem persisted_url_scheme:
  "(createSlugURLPair parsed w = Some (Inr r, w') \<and> status r = 200 \<longrightarrow>
      (\<exists>url p. parsed = Inr url \<and> assertProtocol (Value url) = Inr (Url p)
         \<and> docs w' = docs w @ [p]
         \<and> (HasPrefix (Url p) ''http://'' \<or> HasPrefix (Url p) ''https://'')))
   \<and> (createSlugURLPair_main parsed w = Some (Inr r, w') \<and> status r = 200 \<longrightarrow>
      (\<exists>bodyUrl u p. parsed = Inr bodyUrl \<and> Parse (Value bodyUrl) = Inr u \<and> docs w' = docs w @ [p]
         \<and> HasPrefix (Url p) ((if Scheme u = [] then ''http'' else Scheme u) @ '':'')
         \<and> ((Scheme u = [] \<or> Scheme u = ''http'' \<or> Scheme u = ''https'')
              \<and> (Host u \<noteq> [] \<or> (Scheme u = [] \<and> Path u \<noteq> [])) \<longrightarrow>
              HasPrefix (Url p) ''http://'' \<or> HasPrefix (Url p) ''https://'')))"
proof (intro conjI impI)
  assume "createSlugURLPair parsed w = Some (Inr r, w') \<and> status r = 200"
  then obtain url v where parsed: "parsed = Inr url" and v: "assertProtocol (Value url) = Inr v"
    and valid: "isValidURL v w" and ps: "persist v w = Some (Inr r, w')"
    by (blast elim: createSlugURLPair_ok)
  from ps obtain s where d: "docs w' = docs w @ [\<lparr>Slug = s, Url = v, ExpireAt = clock w + five_days\<rparr>]"
    by (rule persist_returns)
  from v obtain u where P: "Parse (Value url) = Inr u"
    and vu: "v = URL_String (if Scheme u \<noteq> ''http'' \<and> Scheme u \<noteq> ''https'' then u\<lparr>Scheme := ''https''\<rparr> else u)"
    by (rule assertProtocol_Parse)
  define u' where "u' = (if Scheme u \<noteq> ''http'' \<and> Scheme u \<noteq> ''https'' then u\<lparr>Scheme := ''https''\<rparr> else u)"
  have sch: "Scheme u' = ''http'' \<or> Scheme u' = ''https''"
    by (auto simp: u'_def)
  then have ne: "Scheme u' \<noteq> []" by auto
  from URL_String_scheme [OF ne] vu have one: "HasPrefix v (Scheme u' @ '':'')"
    by (simp add: u'_def [symmetric])
  from valid obtain u2 where P2: "Parse v = Inr u2" and h2: "Host u2 \<noteq> []"
    by (rule isValidURL_host)
  from HasPrefix_scheme_slashes [OF one P2 h2 sch] sch
  have two: "HasPrefix v ''http://'' \<or> HasPrefix v ''https://''"
    by auto
  from parsed v d two
  show "\<exists>url p. parsed = Inr url \<and> assertProtocol (Value url) = Inr (Url p)
         \<and> docs w' = docs w @ [p]
         \<and> (HasPrefix (Url p) ''http://'' \<or> HasPrefix (Url p) ''https://'')"
    by (intro exI [of _ url] exI [of _ "\<lparr>Slug = s, Url = v, ExpireAt = clock w + five_days\<rparr>"]) simp
next
  assume "createSlugURLPair_main parsed w = Some (Inr r, w') \<and> status r = 200"
  then obtain bodyUrl u where parsed: "parsed = Inr bodyUrl" and P: "Parse (Value bodyUrl) = Inr u"
    and ps: "persist (URL_String (if Scheme u = [] then u\<lparr>Scheme := ''http''\<rparr> else u)) w = Some (Inr r, w')"
    by (blast elim: createSlugURLPair_main_ok)
  define u' where "u' = (if Scheme u = [] then u\<lparr>Scheme := ''http''\<rparr> else u)"
  from ps obtain s where d: "docs w' = docs w @ [\<lparr>Slug = s, Url = URL_String u', ExpireAt = clock w + five_days\<rparr>]"
    unfolding u'_def by (rule persist_returns)
  have sch: "Scheme u' = (if Scheme u = [] then ''http'' else Scheme u)"
    by (simp add: u'_def)
  then have ne: "Scheme u' \<noteq> []" by auto
  have same: "Opaque u' = Opaque u" "Host u' = Host u" "User u' = User u" "Path u' = Path u"
    "OmitHost u' = OmitHost u"
    by (simp_all add: u'_def)
  from URL_String_scheme [OF ne] sch
  have one: "HasPrefix (URL_String u') ((if Scheme u = [] then ''http'' else Scheme u) @ '':'')"
    by simp
  have two: "(Scheme u = [] \<or> Scheme u = ''http'' \<or> Scheme u = ''https'')
      \<and> (Host u \<noteq> [] \<or> (Scheme u = [] \<and> Path u \<noteq> [])) \<longrightarrow>
      HasPrefix (URL_String u') ''http://'' \<or> HasPrefix (URL_String u') ''https://''"
  proof
    assume a: "(Scheme u = [] \<or> Scheme u = ''http'' \<or> Scheme u = ''https'')
      \<and> (Host u \<noteq> [] \<or> (Scheme u = [] \<and> Path u \<noteq> []))"
    with Parse_Inr [OF P] have "Opaque u = []"
      and "Host u \<noteq> [] \<or> User u \<noteq> None \<or> (Path u \<noteq> [] \<and> \<not> OmitHost u)"
      by auto
    with same have "Opaque u' = []"
      and "Host u' \<noteq> [] \<or> User u' \<noteq> None \<or> (Path u' \<noteq> [] \<and> \<not> OmitHost u')"
      by simp_all
    from URL_String_slashes [OF ne this] sch a
    show "HasPrefix (URL_String u') ''http://'' \<or> HasPrefix (URL_String u') ''https://''"
      by auto
  qed
  from parsed P d one two
  show "\<exists>bodyUrl u p. parsed = Inr bodyUrl \<and> Parse (Value bodyUrl) = Inr u \<and> docs w' = docs w @ [p]
         \<and> HasPrefix (Url p) ((if Scheme u = [] then ''http'' else Scheme u) @ '':'')
         \<and> ((Scheme u = [] \<or> Scheme u = ''http'' \<or> Scheme u = ''https'')
              \<and> (Host u \<noteq> [] \<or> (Scheme u = [] \<and> Path u \<noteq> [])) \<longrightarrow>
              HasPrefix (Url p) ''http://'' \<or> HasPrefix (Url p) ''https://'')"
    by (intro exI [of _ bodyUrl] exI [of _ u]
        exI [of _ "\<lparr>Slug = s, Url = URL_String u', ExpireAt = clock w + five_days\<rparr>"]) simp
qed

text \<open>At a concrete input: \<^verbatim>\<open>example.com\<close>, for both handlers.\<close>

theorem persisted_url_scheme_witness:
  "(\<exists>r w' p. createSlugURLPair (Inr \<lparr>Value = ''example.com''\<rparr>) calm = Some (Inr r, w')
      \<and> status r = 200 \<and> docs w' = [p] \<and> Url p = ''https://example.com''
      \<and> (HasPrefix (Url p) ''http://'' \<or> HasPrefix (Url p) ''https://''))
   \<and> (\<exists>r w' p. createSlugURLPair_main (Inr \<lparr>Value = ''example.com''\<rparr>) calm = Some (Inr r, w')
      \<and> status r = 200 \<and> docs w' = [p]
      \<and> (HasPrefix (Url p) ''http://'' \<or> HasPrefix (Url p) ''https://''))"
proof
  have "case createSlugURLPair (Inr \<lparr>Value = ''example.com''\<rparr>) calm of
      Some (Inr r, w') \<Rightarrow> status r = 200 | _ \<Rightarrow> False"
    by code_simp
  then obtain r w' where c: "createSlugURLPair (Inr \<lparr>Value = ''example.com''\<rparr>) calm = Some (Inr r, w')"
    and s: "status r = 200"
    by (auto split: option.splits sum.splits prod.splits)
  have n: "assertProtocol ''example.com'' = Inr ''https://example.com''"
    by code_simp
  have e: "docs calm = []"
    by (simp add: calm_def)
  from persisted_url_scheme [of "Inr \<lparr>Value = ''example.com''\<rparr>" calm r w'] c s
  obtain p where "assertProtocol ''example.com'' = Inr (Url p)" and d: "docs w' = docs calm @ [p]"
    and "HasPrefix (Url p) ''http://'' \<or> HasPrefix (Url p) ''https://''"
    by auto
  with c s e n
  show "\<exists>r w' p. createSlugURLPair (Inr \<lparr>Value = ''example.com''\<rparr>) calm = Some (Inr r, w')
      \<and> status r = 200 \<and> docs w' = [p] \<and> Url p = ''https://example.com''
      \<and> (HasPrefix (Url p) ''http://'' \<or> HasPrefix (Url p) ''https://'')"
    by auto
next
  have "case createSlugURLPair_main (Inr \<lparr>Value = ''example.com''\<rparr>) calm of
      Some (Inr r, w') \<Rightarrow> status r = 200 | _ \<Rightarrow> False"
    by code_simp
  then obtain r w' where c: "createSlugURLPair_main (Inr \<lparr>Value = ''example.com''\<rparr>) calm = Some (Inr r, w')"
    and s: "status r = 200"
    by (auto split: option.splits sum.splits prod.splits)
  have P: "Parse ''example.com'' = Inr (new_URL\<lparr>Path := ''example.com''\<rparr>)"
    by code_simp
  have e: "docs calm = []"
    by (simp add: calm_def)
  from persisted_url_scheme [of "Inr \<lparr>Value = ''example.com''\<rparr>" calm r w'] c s
  obtain u p where "Parse ''example.com'' = Inr u" and d: "docs w' = docs calm @ [p]"
    and "(Scheme u = [] \<or> Scheme u = ''http'' \<or> Scheme u = ''https'')
              \<and> (Host u \<noteq> [] \<or> (Scheme u = [] \<and> Path u \<noteq> [])) \<longrightarrow>
              HasPrefix (Url p) ''http://'' \<or> HasPrefix (Url p) ''https://''"
    by auto
  with P have "HasPrefix (Url p) ''http://'' \<or> HasPrefix (Url p) ''https://''"
    by (simp add: new_URL_def)
  with c s d e
  show "\<exists>r w' p. createSlugURLPair_main (Inr \<lparr>Value = ''example.com''\<rparr>) calm = Some (Inr r, w')
      \<and> status r = 200 \<and> docs w' = [p]
      \<and> (HasPrefix (Url p) ''http://'' \<or> HasPrefix (Url p) ''https://'')"
    by auto
qed

text \<open>Against claim C2 as stated: the handler of \<^verbatim>\<open>main.go\<close> (lines 110-154)
  answers 200 and stores \<^verbatim>\<open>ftp://example.com\<close> as it is; for an empty URL it stores
  \<^verbatim>\<open>http:\<close>.\<close>

theorem persisted_url_scheme_counterexample:
  "(case createSlugURLPair_main (Inr \<lparr>Value = ''ftp://example.com''\<rparr>) calm of
      Some (Inr r, w') \<Rightarrow>
        status r = 200 \<and> map Url (docs w') = [''ftp://example.com'']
        \<and> \<not> HasPrefix ''ftp://example.com'' ''http://''
        \<and> \<not> HasPrefix ''ftp://example.com'' ''https://''
    | _ \<Rightarrow> False)
   \<and> (case createSlugURLPair_main (Inr \<lparr>Value = []\<rparr>) calm of
      Some (Inr r, w') \<Rightarrow>
        status r = 200 \<and> map Url (docs w') = [''http:'']
        \<and> \<not> HasPrefix ''http:'' ''http://'' \<and> \<not> HasPrefix ''http:'' ''https://''
    | _ \<Rightarrow> False)"
  by code_simp

end
